theory Spec2Isabelle
  imports Complex_Main
begin

section \<open>Python values\<close>

text \<open>
  The pipeline passes JSON payloads around as Python dictionaries. A value is one of the
  JSON kinds; a dictionary is an association list in insertion order, read with
  \<open>map_of\<close>. A float is the rational number it denotes (every finite double is one).
\<close>

datatype pyval =
    PNone
  | PBool bool
  | PInt int
  | PFloat rat
  | PStr string
  | PList "pyval list"
  | PDict "(string \<times> pyval) list"

datatype exn =
    RequestException string
  | AttributeError string
  | TypeError string
  | KeyError string
  | IndexError string
  | ValueError string
  | IntegrityError string
  | ZeroDivisionError string
  | OtherException string

text \<open>Python truthiness: \<open>if v:\<close> and \<open>not v\<close>.\<close>

fun truthy :: "pyval \<Rightarrow> bool" where
  "truthy PNone = False"
| "truthy (PBool b) = b"
| "truthy (PInt i) = (i \<noteq> 0)"
| "truthy (PFloat r) = (r \<noteq> 0)"
| "truthy (PStr s) = (s \<noteq> [])"
| "truthy (PList xs) = (xs \<noteq> [])"
| "truthy (PDict d) = (d \<noteq> [])"

text \<open>\<open>d[k] = v\<close>: an existing key keeps its position, a new key goes last.\<close>

fun dict_set :: "(string \<times> pyval) list \<Rightarrow> string \<Rightarrow> pyval \<Rightarrow> (string \<times> pyval) list" where
  "dict_set [] k v = [(k, v)]"
| "dict_set ((k', v') # d) k v = (if k' = k then (k, v) # d else (k', v') # dict_set d k v)"

text \<open>\<open>x.get(k, default)\<close>: only a dictionary has the method.\<close>

fun py_get :: "pyval \<Rightarrow> string \<Rightarrow> pyval \<Rightarrow> exn + pyval" where
  "py_get (PDict d) k dflt = Inr (case map_of d k of None \<Rightarrow> dflt | Some v \<Rightarrow> v)"
| "py_get _ k dflt = Inl (AttributeError ''object has no attribute get'')"

text \<open>\<open>x[k]\<close> with a string key.\<close>

fun py_item :: "pyval \<Rightarrow> string \<Rightarrow> exn + pyval" where
  "py_item (PDict d) k = (case map_of d k of None \<Rightarrow> Inl (KeyError k) | Some v \<Rightarrow> Inr v)"
| "py_item _ k = Inl (TypeError ''indices must be integers'')"

section \<open>Reconciliation: \<open>BusinessFinder.fast_verify_business\<close>\<close>

text \<open>
  \<open>yelp_data.get("location", {}).get("address1")\<close> raises when the listing or its
  location is not a dictionary; the dictionary literals are evaluated in source order.
\<close>

definition yelp_info :: "pyval \<Rightarrow> exn + (string \<times> pyval) list" where
  "yelp_info yelp_data =
     (case py_get yelp_data ''name'' PNone of Inl e \<Rightarrow> Inl e | Inr name \<Rightarrow>
      case py_get yelp_data ''location'' (PDict []) of Inl e \<Rightarrow> Inl e | Inr loc1 \<Rightarrow>
      case py_get loc1 ''address1'' PNone of Inl e \<Rightarrow> Inl e | Inr address \<Rightarrow>
      case py_get yelp_data ''location'' (PDict []) of Inl e \<Rightarrow> Inl e | Inr loc2 \<Rightarrow>
      case py_get loc2 ''city'' PNone of Inl e \<Rightarrow> Inl e | Inr city \<Rightarrow>
      case py_get yelp_data ''phone'' PNone of Inl e \<Rightarrow> Inl e | Inr phone \<Rightarrow>
      case py_get yelp_data ''rating'' PNone of Inl e \<Rightarrow> Inl e | Inr rating \<Rightarrow>
      case py_get yelp_data ''review_count'' PNone of Inl e \<Rightarrow> Inl e | Inr review_count \<Rightarrow>
        Inr [(''name'', name), (''address'', address), (''city'', city), (''phone'', phone),
             (''rating'', rating), (''review_count'', review_count)])"

definition verified_data0 :: "(string \<times> pyval) list \<Rightarrow> (string \<times> pyval) list" where
  "verified_data0 info =
     [(''verified_name'', case map_of info ''name'' of None \<Rightarrow> PNone | Some v \<Rightarrow> v),
      (''verified_address'', case map_of info ''address'' of None \<Rightarrow> PNone | Some v \<Rightarrow> v),
      (''verified_city'', case map_of info ''city'' of None \<Rightarrow> PNone | Some v \<Rightarrow> v),
      (''verified_phone'', case map_of info ''phone'' of None \<Rightarrow> PNone | Some v \<Rightarrow> v),
      (''business_status'', PStr ''unknown''),
      (''confidence_level'', PStr ''medium''),
      (''reasoning'', PStr ''Using Yelp data as primary source''),
      (''discrepancies_found'', PBool False),
      (''discrepancy_details'', PStr ''Fast verification used'')]"

text \<open>The closure check of the cross-reference branch.\<close>

definition check_closed :: "pyval \<Rightarrow> (string \<times> pyval) list \<Rightarrow> exn + (string \<times> pyval) list" where
  "check_closed google_data vd =
     (case py_get google_data ''business_status'' PNone of Inl e \<Rightarrow> Inl e | Inr st \<Rightarrow>
        if st = PStr ''CLOSED_PERMANENTLY''
        then Inr (dict_set (dict_set (dict_set vd
               ''business_status'' (PStr ''closed''))
               ''confidence_level'' (PStr ''high''))
               ''reasoning'' (PStr ''Google indicates business is permanently closed''))
        else Inr vd)"

text \<open>The phone backfill of the cross-reference branch.\<close>

definition backfill_phone :: "pyval \<Rightarrow> (string \<times> pyval) list \<Rightarrow> exn + (string \<times> pyval) list" where
  "backfill_phone google_data vd =
     (case py_item (PDict vd) ''verified_phone'' of Inl e \<Rightarrow> Inl e | Inr phone \<Rightarrow>
        if truthy phone then Inr vd
        else case py_get google_data ''formatted_phone_number'' PNone of Inl e \<Rightarrow> Inl e | Inr gp \<Rightarrow>
          if truthy gp
          then (case py_item google_data ''formatted_phone_number'' of Inl e \<Rightarrow> Inl e
                | Inr gp' \<Rightarrow> Inr (dict_set vd ''verified_phone'' gp'))
          else Inr vd)"

definition fast_verify_business :: "pyval \<Rightarrow> pyval \<Rightarrow> exn + (string \<times> pyval) list" where
  "fast_verify_business yelp_data google_data =
     (case yelp_info yelp_data of Inl e \<Rightarrow> Inl e | Inr info \<Rightarrow>
        let verified_data = verified_data0 info in
        if truthy google_data
        then (case check_closed google_data verified_data of Inl e \<Rightarrow> Inl e
              | Inr vd \<Rightarrow> backfill_phone google_data vd)
        else Inr verified_data)"


text \<open>The vocabulary of the reconciliation properties, read off the payloads.\<close>

fun is_dict :: "pyval \<Rightarrow> bool" where
  "is_dict (PDict d) = True"
| "is_dict _ = False"

definition wf_listing :: "pyval \<Rightarrow> bool" where
  \<comment> \<open>a directory listing as the API documents it: an object whose location, when
      present, is an object\<close>
  "wf_listing y =
     (case y of PDict d \<Rightarrow> (case map_of d ''location'' of None \<Rightarrow> True | Some l \<Rightarrow> is_dict l)
      | _ \<Rightarrow> False)"

definition wf_xref :: "pyval \<Rightarrow> bool" where
  \<comment> \<open>\<open>Optional[Dict]\<close>: no cross-reference, or a record\<close>
  "wf_xref g = (g = PNone \<or> is_dict g)"

definition listing_phone :: "pyval \<Rightarrow> pyval" where
  "listing_phone y =
     (case y of PDict d \<Rightarrow> (case map_of d ''phone'' of None \<Rightarrow> PNone | Some v \<Rightarrow> v)
      | _ \<Rightarrow> PNone)"

definition xref_phone :: "pyval \<Rightarrow> pyval" where
  "xref_phone g =
     (case g of PDict d \<Rightarrow> (case map_of d ''formatted_phone_number'' of None \<Rightarrow> PNone | Some v \<Rightarrow> v)
      | _ \<Rightarrow> PNone)"

definition indicates_closed :: "pyval \<Rightarrow> bool" where
  "indicates_closed g =
     (case g of PDict d \<Rightarrow> map_of d ''business_status'' = Some (PStr ''CLOSED_PERMANENTLY'')
      | _ \<Rightarrow> False)"

section \<open>Floating point\<close>

text \<open>
  A finite double is the rational it denotes. \<open>fl\<close> rounds a rational to the nearest
  double, ties to even, with 53 significant bits and the subnormal spacing \<open>2^-1074\<close>;
  overflow to infinity is outside the model (the pipeline's numbers are far from it).
\<close>

definition pow2 :: "int \<Rightarrow> rat" where
  "pow2 k = (if 0 \<le> k then 2 ^ nat k else 1 / 2 ^ nat (- k))"

function floorlog2 :: "int \<Rightarrow> int" where
  "floorlog2 n = (if n < 2 then 0 else 1 + floorlog2 (n div 2))"
  by pat_completeness auto
termination
  by (relation "measure nat") auto

definition exponent :: "rat \<Rightarrow> int" where
  \<comment> \<open>for \<open>0 < x\<close>: the \<open>e\<close> with \<open>2^e \<le> x < 2^(e+1)\<close>\<close>
  "exponent x =
     (let (p, q) = quotient_of x;
          e0 = floorlog2 p - floorlog2 q
      in if pow2 e0 \<le> x then e0 else e0 - 1)"

definition round_half_even :: "rat \<Rightarrow> int" where
  "round_half_even x =
     (let f = \<lfloor>x\<rfloor>; d = x - of_int f
      in if d < 1 / 2 then f else if 1 / 2 < d then f + 1 else if even f then f else f + 1)"

definition fl :: "rat \<Rightarrow> rat" where
  "fl x =
     (if x = 0 then 0
      else let a = \<bar>x\<bar>;
               k = max (exponent a - 52) (- 1074);
               m = round_half_even (a / pow2 k)
           in sgn x * of_int m * pow2 k)"

definition fmul :: "rat \<Rightarrow> rat \<Rightarrow> rat" where
  "fmul a b = fl (a * b)"

text \<open>\<open>int(x)\<close> of a float truncates toward zero; \<open>round(x)\<close> rounds half to even.\<close>

definition py_int :: "rat \<Rightarrow> int" where
  "py_int x = (if 0 \<le> x then \<lfloor>x\<rfloor> else \<lceil>x\<rceil>)"

definition py_round :: "rat \<Rightarrow> int" where
  "py_round x = round_half_even x"


section \<open>Helpers for payloads and HTTP\<close>

definition and_then :: "'e + 'a \<Rightarrow> ('a \<Rightarrow> 'e + 'b) \<Rightarrow> 'e + 'b" where
  "and_then r f = (case r of Inl e \<Rightarrow> Inl e | Inr v \<Rightarrow> f v)"

text \<open>\<open>d.get(k, default)\<close> on a value known to be a dictionary.\<close>

definition dict_get :: "(string \<times> pyval) list \<Rightarrow> string \<Rightarrow> pyval \<Rightarrow> pyval" where
  "dict_get d k dflt = (case map_of d k of None \<Rightarrow> dflt | Some v \<Rightarrow> v)"

text \<open>Iteration (\<open>for x in v\<close>, \<open>list.extend(v)\<close>), \<open>len(v)\<close>, \<open>v[0]\<close> and \<open>xs[:n]\<close>.\<close>

fun py_iter :: "pyval \<Rightarrow> exn + pyval list" where
  "py_iter (PList xs) = Inr xs"
| "py_iter (PStr s) = Inr (map (\<lambda>c. PStr [c]) s)"
| "py_iter (PDict d) = Inr (map (\<lambda>kv. PStr (fst kv)) d)"
| "py_iter _ = Inl (TypeError ''object is not iterable'')"

fun py_index0 :: "pyval \<Rightarrow> exn + pyval" where
  "py_index0 (PList []) = Inl (IndexError ''list index out of range'')"
| "py_index0 (PList (x # xs)) = Inr x"
| "py_index0 (PStr []) = Inl (IndexError ''string index out of range'')"
| "py_index0 (PStr (c # cs)) = Inr (PStr [c])"
| "py_index0 (PDict d) = Inl (KeyError ''0'')"
| "py_index0 _ = Inl (TypeError ''object is not subscriptable'')"

definition py_slice_to :: "'a list \<Rightarrow> int \<Rightarrow> 'a list" where
  "py_slice_to xs n = (if 0 \<le> n then take (nat n) xs else take (nat (int (length xs) + n)) xs)"

text \<open>
  One HTTP exchange (\<open>requests.get\<close>, \<open>raise_for_status\<close>, \<open>response.json()\<close>) either
  raises or yields the parsed body. An exception carries its message, \<open>str(e)\<close>.
\<close>

datatype http_outcome = Raises exn | Json pyval

fun exn_str :: "exn \<Rightarrow> string" where
  "exn_str (RequestException m) = m"
| "exn_str (AttributeError m) = m"
| "exn_str (TypeError m) = m"
| "exn_str (KeyError m) = m"
| "exn_str (IndexError m) = m"
| "exn_str (ValueError m) = m"
| "exn_str (IntegrityError m) = m"
| "exn_str (ZeroDivisionError m) = m"
| "exn_str (OtherException m) = m"

section \<open>Directory search: \<open>BusinessFinder.search_yelp_businesses\<close>\<close>

record BusinessSearchParams =
  city :: string
  industry :: string
  distance_miles :: rat
  max_results :: int

definition radius_meters :: "rat \<Rightarrow> int" where
  \<comment> \<open>\<open>int(params.distance_miles * 1609.34)\<close>\<close>
  "radius_meters miles = py_int (fmul miles (fl (160934 / 100)))"

definition params_dict :: "BusinessSearchParams \<Rightarrow> int \<Rightarrow> int \<Rightarrow> int \<Rightarrow> (string \<times> pyval) list" where
  "params_dict p radius limit offset =
     [(''term'', PStr (industry p)), (''location'', PStr (city p)), (''radius'', PInt radius),
      (''limit'', PInt limit), (''offset'', PInt offset), (''sort_by'', PStr ''rating'')]"

text \<open>
  The \<open>while\<close> loop. The result is what the loop leaves in \<open>all_businesses\<close> (or the
  exception that escapes it) together with the exchanges made, in order.
\<close>

function yelp_loop ::
  "((string \<times> pyval) list \<Rightarrow> http_outcome) \<Rightarrow> BusinessSearchParams \<Rightarrow> int \<Rightarrow> int \<Rightarrow>
   pyval list \<Rightarrow> int \<Rightarrow> ((string \<times> pyval) list \<times> http_outcome) list \<Rightarrow>
   (exn + pyval list) \<times> ((string \<times> pyval) list \<times> http_outcome) list" where
  "yelp_loop api p radius limit all_businesses offset trace =
     (if int (length all_businesses) < max_results p
      then (case api (params_dict p radius limit offset) of
              Raises e \<Rightarrow>
                (case e of
                   RequestException m \<Rightarrow>
                     (Inr all_businesses, trace @ [(params_dict p radius limit offset, Raises e)])
                 | _ \<Rightarrow> (Inl e, trace @ [(params_dict p radius limit offset, Raises e)]))
            | Json data \<Rightarrow>
                (case py_get data ''businesses'' (PList []) of
                   Inl e \<Rightarrow> (Inl e, trace @ [(params_dict p radius limit offset, Json data)])
                 | Inr businesses \<Rightarrow>
                     if \<not> truthy businesses
                     then (Inr all_businesses, trace @ [(params_dict p radius limit offset, Json data)])
                     else (case py_iter businesses of
                             Inl e \<Rightarrow> (Inl e, trace @ [(params_dict p radius limit offset, Json data)])
                           | Inr items \<Rightarrow>
                               if int (length items) < limit
                               then (Inr (all_businesses @ items),
                                     trace @ [(params_dict p radius limit offset, Json data)])
                               else yelp_loop api p radius limit (all_businesses @ items)
                                      (offset + int (length items))
                                      (trace @ [(params_dict p radius limit offset, Json data)]))))
      else (Inr all_businesses, trace))"
  by pat_completeness auto
termination
proof (relation "measure (\<lambda>(api, p, radius, limit, all_businesses, offset, trace).
                   nat (max_results p - int (length all_businesses)))", goal_cases)
  case 1
  show ?case by simp
next
  case (2 api p radius limit all_businesses offset trace data businesses items)
  from 2 have "items \<noteq> []" by (cases businesses) auto
  with 2 show ?case by (cases items) auto
qed

definition search_yelp_businesses ::
  "((string \<times> pyval) list \<Rightarrow> http_outcome) \<Rightarrow> BusinessSearchParams \<Rightarrow>
   (exn + pyval list) \<times> ((string \<times> pyval) list \<times> http_outcome) list" where
  "search_yelp_businesses api p =
     (let radius = radius_meters (distance_miles p);
          limit = min 50 (max_results p);
          r = yelp_loop api p radius limit [] 0 []
      in (case fst r of
            Inl e \<Rightarrow> Inl e
          | Inr all_businesses \<Rightarrow>
              if limit = 0 then Inl (ZeroDivisionError ''integer division or modulo by zero'')
              else Inr (py_slice_to all_businesses (max_results p)),
          snd r))"


section \<open>Directory search: \<open>YelpAPIClient.search_businesses\<close>\<close>

text \<open>
  \<open>_make_search_request\<close>: the request parameters, and the body, \<open>None\<close> after a
  \<open>RequestException\<close>; any other exception escapes to the caller.
\<close>

definition search_request_params ::
  "pyval \<Rightarrow> pyval \<Rightarrow> pyval \<Rightarrow> int \<Rightarrow> int \<Rightarrow> (string \<times> pyval) list" where
  "search_request_params location business_type radius limit offset =
     (let params = [(''location'', location), (''radius'', radius), (''limit'', PInt limit),
                    (''offset'', PInt offset), (''sort_by'', PStr ''best_match'')]
      in if truthy business_type then dict_set params ''categories'' business_type else params)"

definition make_search_request ::
  "((string \<times> pyval) list \<Rightarrow> http_outcome) \<Rightarrow> pyval \<Rightarrow> pyval \<Rightarrow> pyval \<Rightarrow> int \<Rightarrow> int \<Rightarrow>
   exn + pyval" where
  "make_search_request api location business_type radius limit offset =
     (case api (search_request_params location business_type radius limit offset) of
        Raises e \<Rightarrow> (case e of RequestException m \<Rightarrow> Inr PNone | _ \<Rightarrow> Inl e)
      | Json body \<Rightarrow> Inr body)"

text \<open>\<open>_format_address\<close>, \<open>_get_primary_category\<close> and \<open>_process_business\<close>.\<close>

fun address_parts :: "pyval \<Rightarrow> string list \<Rightarrow> exn + pyval list" where
  "address_parts location [] = Inr []"
| "address_parts location (field # flds) =
     (case py_get location field PNone of
        Inl e \<Rightarrow> Inl e
      | Inr v \<Rightarrow>
          if truthy v
          then (case py_item location field of
                  Inl e \<Rightarrow> Inl e
                | Inr part \<Rightarrow>
                    (case address_parts location flds of
                       Inl e \<Rightarrow> Inl e
                     | Inr parts \<Rightarrow> Inr (part # parts)))
          else address_parts location flds)"

fun join_comma :: "pyval list \<Rightarrow> exn + string" where
  "join_comma [] = Inr []"
| "join_comma [PStr s] = Inr s"
| "join_comma (PStr s # v # vs) =
     (case join_comma (v # vs) of Inl e \<Rightarrow> Inl e | Inr t \<Rightarrow> Inr (s @ '', '' @ t))"
| "join_comma (_ # vs) = Inl (TypeError ''sequence item: expected str instance'')"

definition format_address :: "pyval \<Rightarrow> exn + pyval" where
  "format_address location =
     and_then (address_parts location [''address1'', ''address2'', ''address3''])
       (\<lambda>parts. and_then (join_comma parts) (\<lambda>s. Inr (PStr s)))"

definition get_primary_category :: "pyval \<Rightarrow> exn + pyval" where
  "get_primary_category categories =
     (if \<not> truthy categories then Inr (PStr ''other'')
      else and_then (py_index0 categories) (\<lambda>c. py_get c ''alias'' (PStr ''other'')))"

definition process_business :: "pyval \<Rightarrow> exn + pyval" where
  "process_business business =
     and_then (py_get business ''location'' (PDict [])) (\<lambda>location.
     and_then (py_get business ''coordinates'' (PDict [])) (\<lambda>coordinates.
     and_then (py_get business ''id'' PNone) (\<lambda>yelp_id.
     and_then (py_get business ''name'' PNone) (\<lambda>name.
     and_then (format_address location) (\<lambda>address.
     and_then (py_get location ''city'' PNone) (\<lambda>cty.
     and_then (py_get location ''state'' PNone) (\<lambda>state.
     and_then (py_get location ''zip_code'' PNone) (\<lambda>zip_code.
     and_then (py_get business ''phone'' PNone) (\<lambda>phone.
     and_then (py_get business ''url'' PNone) (\<lambda>website.
     and_then (py_get business ''categories'' (PList [])) (\<lambda>categories.
     and_then (get_primary_category categories) (\<lambda>business_type.
     and_then (py_get business ''rating'' PNone) (\<lambda>rating.
     and_then (py_get business ''review_count'' PNone) (\<lambda>review_count.
     and_then (py_get business ''price'' PNone) (\<lambda>price_level.
     and_then (py_get business ''url'' PNone) (\<lambda>yelp_url.
     and_then (py_get coordinates ''latitude'' PNone) (\<lambda>latitude.
     and_then (py_get coordinates ''longitude'' PNone) (\<lambda>longitude.
     and_then (py_get business ''image_url'' PNone) (\<lambda>image_url.
     and_then (py_get business ''is_closed'' (PBool False)) (\<lambda>is_closed.
       Inr (PDict
         [(''yelp_id'', yelp_id), (''name'', name), (''address'', address), (''city'', cty),
          (''state'', state), (''zip_code'', zip_code), (''phone'', phone),
          (''website'', website), (''business_type'', business_type), (''rating'', rating),
          (''review_count'', review_count), (''price_level'', price_level),
          (''yelp_url'', yelp_url), (''latitude'', latitude), (''longitude'', longitude),
          (''image_url'', image_url), (''is_closed'', is_closed)])))))))))))))))))))))"

text \<open>
  The \<open>for\<close> loop over one page: it stops once \<open>max_results\<close> listings are held; an
  exception of \<open>_process_business\<close> leaves the listings appended so far.
\<close>

fun process_page :: "int \<Rightarrow> pyval list \<Rightarrow> pyval list \<Rightarrow> exn option \<times> pyval list" where
  "process_page maxr businesses [] = (None, businesses)"
| "process_page maxr businesses (b # bs) =
     (if maxr \<le> int (length businesses) then (None, businesses)
      else (case process_business b of
              Inl e \<Rightarrow> (Some e, businesses)
            | Inr processed \<Rightarrow> process_page maxr (businesses @ [processed]) bs))"

text \<open>
  One pass of the \<open>while\<close> body after the request: \<open>Inl\<close> is a \<open>break\<close> (also the one
  of \<open>except Exception\<close>), \<open>Inr\<close> goes on to the next page.
\<close>

definition page_step :: "int \<Rightarrow> int \<Rightarrow> pyval list \<Rightarrow> exn + pyval \<Rightarrow> pyval list + pyval list" where
  "page_step maxr current_limit businesses r =
     (case r of
        Inl e \<Rightarrow> Inl businesses
      | Inr response \<Rightarrow>
          if \<not> truthy response then Inl businesses
          else (case py_get response ''businesses'' (PList []) of
                  Inl e \<Rightarrow> Inl businesses
                | Inr page \<Rightarrow>
                    (case py_iter page of
                       Inl e \<Rightarrow> Inl businesses
                     | Inr items \<Rightarrow>
                         (case process_page maxr businesses items of
                            (Some e, businesses') \<Rightarrow> Inl businesses'
                          | (None, businesses') \<Rightarrow>
                              if int (length items) < current_limit then Inl businesses'
                              else Inr businesses'))))"

lemma process_page_length:
  "process_page maxr businesses items = (None, businesses') \<Longrightarrow>
   int (length businesses) \<le> maxr \<Longrightarrow>
   int (length businesses') = min (int (length businesses) + int (length items)) maxr"
proof (induction items arbitrary: businesses)
  case Nil
  then show ?case by simp
next
  case (Cons b bs)
  show ?case
  proof (cases "maxr \<le> int (length businesses)")
    case True
    with Cons.prems show ?thesis by simp
  next
    case False
    with Cons.prems obtain processed where
      p: "process_business b = Inr processed"
         "process_page maxr (businesses @ [processed]) bs = (None, businesses')"
      by (auto split: sum.splits)
    from False have "int (length (businesses @ [processed])) \<le> maxr" by simp
    from Cons.IH[OF p(2) this] show ?thesis by simp
  qed
qed

lemma page_step_grows:
  assumes "page_step maxr current_limit businesses r = Inr businesses'"
    and "int (length businesses) < maxr" and "1 \<le> current_limit"
  shows "length businesses < length businesses'"
proof -
  from assms(1) obtain items where
    pp: "process_page maxr businesses items = (None, businesses')"
    and len: "\<not> int (length items) < current_limit"
    by (auto simp: page_step_def split: sum.splits if_splits option.splits prod.splits)
  from process_page_length[OF pp] assms(2)
  have "int (length businesses') = min (int (length businesses) + int (length items)) maxr"
    by simp
  with len assms(2,3) show ?thesis by simp
qed

text \<open>The \<open>while\<close> loop; \<open>limit = min(DEFAULT_LIMIT, max_results)\<close> with \<open>DEFAULT_LIMIT = 50\<close>.\<close>

function client_loop ::
  "((string \<times> pyval) list \<Rightarrow> http_outcome) \<Rightarrow> pyval \<Rightarrow> pyval \<Rightarrow> pyval \<Rightarrow> int \<Rightarrow>
   pyval list \<Rightarrow> int \<Rightarrow> ((string \<times> pyval) list \<times> http_outcome) list \<Rightarrow>
   pyval list \<times> ((string \<times> pyval) list \<times> http_outcome) list" where
  "client_loop api location business_type radius maxr businesses offset trace =
     (if int (length businesses) < maxr
      then (case page_step maxr (min (min 50 maxr) (maxr - int (length businesses))) businesses
                   (make_search_request api location business_type radius
                      (min (min 50 maxr) (maxr - int (length businesses))) offset) of
              Inl businesses' \<Rightarrow>
                (businesses',
                 trace @ [(search_request_params location business_type radius
                            (min (min 50 maxr) (maxr - int (length businesses))) offset,
                           api (search_request_params location business_type radius
                            (min (min 50 maxr) (maxr - int (length businesses))) offset))])
            | Inr businesses' \<Rightarrow>
                client_loop api location business_type radius maxr businesses'
                  (offset + min (min 50 maxr) (maxr - int (length businesses)))
                  (trace @ [(search_request_params location business_type radius
                              (min (min 50 maxr) (maxr - int (length businesses))) offset,
                             api (search_request_params location business_type radius
                              (min (min 50 maxr) (maxr - int (length businesses))) offset))]))
      else (businesses, trace))"
  by pat_completeness auto
termination
proof (relation "measure (\<lambda>(api, location, business_type, radius, maxr, businesses, offset, trace).
                   nat (maxr - int (length businesses)))", goal_cases)
  case 1
  show ?case by simp
next
  case (2 api location business_type radius maxr businesses offset trace businesses')
  from 2(1) have "1 \<le> min (min 50 maxr) (maxr - int (length businesses))" by simp
  from page_step_grows[OF 2(2) 2(1) this] 2(1) show ?case by simp
qed

definition search_businesses ::
  "((string \<times> pyval) list \<Rightarrow> http_outcome) \<Rightarrow> pyval \<Rightarrow> pyval \<Rightarrow> pyval \<Rightarrow> pyval \<Rightarrow> int \<Rightarrow>
   (exn + pyval list) \<times> ((string \<times> pyval) list \<times> http_outcome) list" where
  "search_businesses api api_key location business_type radius maxr =
     (if \<not> truthy api_key then (Inl (ValueError ''Yelp API key is required''), [])
      else let r = client_loop api location business_type radius maxr [] 0 []
           in (Inr (py_slice_to (fst r) maxr), snd r))"

text \<open>
  The vocabulary of the pagination properties: the listings one exchange delivered, the
  page size its request asked for, a page that does not end the pagination, and a
  response of the shape the directory API documents.
\<close>

definition page_items :: "http_outcome \<Rightarrow> pyval list" where
  "page_items outcome =
     (case outcome of
        Raises e \<Rightarrow> []
      | Json body \<Rightarrow>
          (case py_get body ''businesses'' (PList []) of
             Inl e \<Rightarrow> []
           | Inr page \<Rightarrow> (case py_iter page of Inl e \<Rightarrow> [] | Inr items \<Rightarrow> items)))"

definition requested_limit :: "(string \<times> pyval) list \<Rightarrow> int" where
  "requested_limit params = (case map_of params ''limit'' of Some (PInt n) \<Rightarrow> n | _ \<Rightarrow> 0)"

definition full_page :: "(string \<times> pyval) list \<times> http_outcome \<Rightarrow> bool" where
  "full_page x =
     (page_items (snd x) \<noteq> [] \<and> requested_limit (fst x) \<le> int (length (page_items (snd x))))"

definition wf_response :: "http_outcome \<Rightarrow> bool" where
  "wf_response outcome =
     (case outcome of
        Raises e \<Rightarrow> (case e of RequestException m \<Rightarrow> True | _ \<Rightarrow> False)
      | Json body \<Rightarrow>
          (case body of
             PDict d \<Rightarrow>
               (case map_of d ''businesses'' of
                  None \<Rightarrow> True
                | Some (PList xs) \<Rightarrow> True
                | _ \<Rightarrow> False)
           | _ \<Rightarrow> False))"

text \<open>
  The processed listings of a sequence of raw listings, up to the first one that
  \<open>_process_business\<close> fails on.
\<close>

fun processed_prefix :: "pyval list \<Rightarrow> pyval list" where
  "processed_prefix [] = []"
| "processed_prefix (b # bs) =
     (case process_business b of Inl e \<Rightarrow> [] | Inr processed \<Rightarrow> processed # processed_prefix bs)"

section \<open>Cross-reference lookup: \<open>BusinessFinder.get_google_business_info\<close>\<close>

text \<open>
  The cache key is built with \<open>str.lower()\<close>, which is Python's own: the lookup takes
  the lowering as the parameter \<open>lower\<close>, and what is proved of it holds for every
  lowering function.
\<close>

definition cache_key :: "(string \<Rightarrow> string) \<Rightarrow> string \<Rightarrow> string \<Rightarrow> string" where
  "cache_key lower business_name address = lower business_name @ ''_'' @ lower address"

text \<open>
  The state of a \<open>BusinessFinder\<close> that the lookup touches: the cache (a stored \<open>None\<close>
  is \<open>Some PNone\<close>), the call counter, and the calls made on \<open>self.google_client\<close>, in
  order. The client's two methods return a body or raise.
\<close>

datatype gcall = PlacesSearch string | PlaceDetails pyval

record finder =
  google_cache :: "string \<Rightarrow> pyval option"
  google_api_calls :: int
  upstream :: "gcall list"

definition cache_negative :: "string \<Rightarrow> finder \<Rightarrow> finder \<times> pyval" where
  \<comment> \<open>\<open>self.google_cache[cache_key] = None; return None\<close>\<close>
  "cache_negative key st = (st\<lparr>google_cache := (google_cache st)(key \<mapsto> PNone)\<rparr>, PNone)"

definition fetch_details ::
  "(pyval \<Rightarrow> exn + pyval) \<Rightarrow> string \<Rightarrow> finder \<Rightarrow> pyval \<Rightarrow> finder \<times> pyval" where
  "fetch_details place key st place_id =
     (let st3 = st\<lparr>upstream := upstream st @ [PlaceDetails place_id]\<rparr>
      in case place place_id of
           Inl e \<Rightarrow> cache_negative key st3
         | Inr details_result \<Rightarrow>
             (let st4 = st3\<lparr>google_api_calls := google_api_calls st3 + 1\<rparr>
              in case py_get details_result ''result'' (PDict []) of
                   Inl e \<Rightarrow> cache_negative key st4
                 | Inr result \<Rightarrow>
                     (st4\<lparr>google_cache := (google_cache st4)(key \<mapsto> result)\<rparr>, result)))"

definition get_google_business_info ::
  "(string \<Rightarrow> string) \<Rightarrow> (string \<Rightarrow> exn + pyval) \<Rightarrow> (pyval \<Rightarrow> exn + pyval) \<Rightarrow> finder \<Rightarrow> string \<Rightarrow> string \<Rightarrow>
   finder \<times> pyval" where
  "get_google_business_info lower places place st business_name address =
     (let key = cache_key lower business_name address
      in case google_cache st key of
           Some cached \<Rightarrow> (st, cached)
         | None \<Rightarrow>
             (let search_query = business_name @ '' '' @ address;
                  st1 = st\<lparr>upstream := upstream st @ [PlacesSearch search_query]\<rparr>
              in case places search_query of
                   Inl e \<Rightarrow> cache_negative key st1
                 | Inr places_result \<Rightarrow>
                     (let st2 = st1\<lparr>google_api_calls := google_api_calls st1 + 1\<rparr>
                      in case py_get places_result ''results'' PNone of
                           Inl e \<Rightarrow> cache_negative key st2
                         | Inr results \<Rightarrow>
                             if truthy results
                             then (case and_then (py_item places_result ''results'') py_index0 of
                                     Inl e \<Rightarrow> cache_negative key st2
                                   | Inr candidate \<Rightarrow>
                                       (case py_get candidate ''place_id'' PNone of
                                          Inl e \<Rightarrow> cache_negative key st2
                                        | Inr place_id \<Rightarrow> fetch_details place key st2 place_id))
                             else cache_negative key st2)))"

text \<open>A run of lookups on one finder.\<close>

fun lookups ::
  "(string \<Rightarrow> string) \<Rightarrow> (string \<Rightarrow> exn + pyval) \<Rightarrow> (pyval \<Rightarrow> exn + pyval) \<Rightarrow> finder \<Rightarrow> (string \<times> string) list \<Rightarrow>
   finder" where
  "lookups lower places place st [] = st"
| "lookups lower places place st (na # nas) =
     lookups lower places place (fst (get_google_business_info lower places place st (fst na) (snd na))) nas"

text \<open>
  The identifier of the first candidate of a place search, when the search answered
  with a non-empty candidate list headed by an object.
\<close>

definition first_candidate :: "exn + pyval \<Rightarrow> pyval option" where
  "first_candidate r =
     (case r of
        Inr (PDict d) \<Rightarrow>
          (case map_of d ''results'' of
             Some (PList (PDict c # cs)) \<Rightarrow> Some (dict_get c ''place_id'' PNone)
           | _ \<Rightarrow> None)
      | _ \<Rightarrow> None)"

section \<open>Address verification: \<open>SmartyStreetsVerifier\<close>\<close>

text \<open>The result dictionary of \<open>verify_address\<close>, in the order the source writes it.\<close>

definition verification_result ::
  "bool \<Rightarrow> string \<Rightarrow> rat \<Rightarrow> pyval \<Rightarrow> pyval \<Rightarrow> pyval \<Rightarrow> pyval \<Rightarrow> pyval \<Rightarrow> (string \<times> pyval) list" where
  "verification_result verified status confidence address cty state zip_code err =
     [(''verified'', PBool verified), (''status'', PStr status), (''confidence'', PFloat confidence),
      (''verified_address'', address), (''verified_city'', cty), (''verified_state'', state),
      (''verified_zip_code'', zip_code), (''error'', err)]"

definition failure_result :: "string \<Rightarrow> pyval \<Rightarrow> (string \<times> pyval) list" where
  "failure_result status err = verification_result False status 0 PNone PNone PNone PNone err"

text \<open>\<open>confidence_map.get(dpv_match, 0.0)\<close>; a list or dictionary is not hashable.\<close>

fun confidence_map_get :: "pyval \<Rightarrow> exn + rat" where
  "confidence_map_get (PStr s) =
     Inr (if s = ''Y'' then 1 else if s = ''S'' then fl (9 / 10) else if s = ''D'' then fl (8 / 10)
          else 0)"
| "confidence_map_get (PList xs) = Inl (TypeError ''unhashable type: list'')"
| "confidence_map_get (PDict d) = Inl (TypeError ''unhashable type: dict'')"
| "confidence_map_get _ = Inr 0"

definition calculate_confidence :: "pyval \<Rightarrow> exn + rat" where
  "calculate_confidence result =
     and_then (py_get result ''analysis'' (PDict [])) (\<lambda>analysis.
     and_then (py_get analysis ''dpv_match_code'' (PStr ''N'')) (\<lambda>dpv_match.
     and_then (confidence_map_get dpv_match) (\<lambda>base_confidence.
     and_then (py_get analysis ''dpv_vacant'' (PBool False)) (\<lambda>vacant.
     and_then (py_get analysis ''dpv_cmra'' (PBool False)) (\<lambda>cmra.
       let c1 = (if truthy vacant then fmul base_confidence (fl (7 / 10)) else base_confidence);
           c2 = (if truthy cmra then fmul c1 (fl (9 / 10)) else c1)
       in Inr (min (max c2 0) 1))))))"

text \<open>The body of the \<open>try\<close> block, given what the HTTP exchange produced.\<close>

definition verify_address_try :: "http_outcome \<Rightarrow> exn + (string \<times> pyval) list" where
  "verify_address_try outcome =
     (case outcome of
        Raises e \<Rightarrow> Inl e
      | Json results \<Rightarrow>
          if \<not> truthy results
          then Inr (failure_result ''invalid'' (PStr ''No results returned''))
          else
            and_then (py_index0 results) (\<lambda>result.
            and_then (py_get result ''analysis'' (PDict [])) (\<lambda>analysis.
            and_then (py_get analysis ''dpv_match_code'' PNone) (\<lambda>code.
              if code = PStr ''Y'' \<or> code = PStr ''S'' \<or> code = PStr ''D''
              then
                and_then (calculate_confidence result) (\<lambda>confidence.
                and_then (py_get result ''delivery_line_1'' (PStr [])) (\<lambda>line.
                and_then (py_get result ''components'' (PDict [])) (\<lambda>c1.
                and_then (py_get c1 ''city_name'' (PStr [])) (\<lambda>cty.
                and_then (py_get result ''components'' (PDict [])) (\<lambda>c2.
                and_then (py_get c2 ''state_abbreviation'' (PStr [])) (\<lambda>state.
                and_then (py_get result ''components'' (PDict [])) (\<lambda>c3.
                and_then (py_get c3 ''zipcode'' (PStr [])) (\<lambda>zip_code.
                  Inr (verification_result True ''verified'' confidence line cty state zip_code
                         PNone)))))))))
              else
                and_then (py_get result ''analysis'' (PDict [])) (\<lambda>analysis'.
                and_then (py_get analysis' ''dpv_footnotes'' (PStr ''Address not deliverable''))
                  (\<lambda>err. Inr (failure_result ''invalid'' err)))))))"

text \<open>
  \<open>verify_address\<close> with its two handlers. The service is the HTTP exchange as a
  function of the four address fields.
\<close>

definition verify_address ::
  "(pyval \<Rightarrow> pyval \<Rightarrow> pyval \<Rightarrow> pyval \<Rightarrow> http_outcome) \<Rightarrow> pyval \<Rightarrow> pyval \<Rightarrow> pyval \<Rightarrow> pyval \<Rightarrow>
   (string \<times> pyval) list" where
  "verify_address service street cty state zip_code =
     (case verify_address_try (service street cty state zip_code) of
        Inr r \<Rightarrow> r
      | Inl e \<Rightarrow>
          (case e of
             RequestException m \<Rightarrow> failure_result ''error'' (PStr (''API Error: '' @ m))
           | _ \<Rightarrow> failure_result ''error'' (PStr (''Unexpected error: '' @ exn_str e))))"

text \<open>
  The match code of the first candidate of a response, when the response has one and it
  carries an analysis block.
\<close>

definition match_code :: "http_outcome \<Rightarrow> pyval option" where
  "match_code outcome =
     (case outcome of
        Json (PList (PDict r # rest)) \<Rightarrow>
          (case map_of r ''analysis'' of Some (PDict an) \<Rightarrow> map_of an ''dpv_match_code'' | _ \<Rightarrow> None)
      | _ \<Rightarrow> None)"

section \<open>Address verification of a listing: \<open>BusinessFinder.verify_business_address\<close>\<close>

text \<open>\<open>d[k] = v\<close> on a value that may not be a dictionary.\<close>

fun py_setitem :: "pyval \<Rightarrow> string \<Rightarrow> pyval \<Rightarrow> exn + pyval" where
  "py_setitem (PDict d) k v = Inr (PDict (dict_set d k v))"
| "py_setitem _ k v = Inl (TypeError ''object does not support item assignment'')"

text \<open>
  The seven assignments \<open>business[k] = verification_result[k']\<close>, in source order. The
  listing is updated in place: the value returned is the caller's listing after the call.
\<close>

fun copy_fields :: "(string \<times> pyval) list \<Rightarrow> (string \<times> string) list \<Rightarrow> pyval \<Rightarrow> exn + pyval" where
  "copy_fields r [] business = Inr business"
| "copy_fields r (kk # kks) business =
     (case py_item (PDict r) (snd kk) of
        Inl e \<Rightarrow> Inl e
      | Inr v \<Rightarrow>
          (case py_setitem business (fst kk) v of
             Inl e \<Rightarrow> Inl e
           | Inr business' \<Rightarrow> copy_fields r kks business'))"

definition store_verification :: "(string \<times> pyval) list \<Rightarrow> pyval \<Rightarrow> exn + pyval" where
  "store_verification r business =
     and_then (copy_fields r
                 [(''address_verified'', ''verified''),
                  (''address_verification_status'', ''status''),
                  (''verified_address'', ''verified_address''),
                  (''verified_city'', ''verified_city''),
                  (''verified_state'', ''verified_state''),
                  (''verified_zip_code'', ''verified_zip_code''),
                  (''verification_confidence'', ''confidence'')] business) (\<lambda>business'.
     and_then (py_item (PDict r) ''error'') (\<lambda>err.
       if truthy err
       then and_then (py_item (PDict r) ''error'') (\<lambda>err'.
              py_setitem business' ''verification_error'' err')
       else Inr business'))"

text \<open>
  \<open>get_smarty_verifier()\<close> gives no verifier when the credentials are missing; otherwise
  the verifier is its service.
\<close>

fun verify_business_address ::
  "(pyval \<Rightarrow> pyval \<Rightarrow> pyval \<Rightarrow> pyval \<Rightarrow> http_outcome) option \<Rightarrow> pyval \<Rightarrow> exn + pyval" where
  "verify_business_address None business = Inr business"
| "verify_business_address (Some service) business =
     and_then (py_get business ''location'' (PDict [])) (\<lambda>location.
     and_then (py_get location ''address1'' (PStr [])) (\<lambda>street.
     and_then (py_get location ''city'' (PStr [])) (\<lambda>cty.
     and_then (py_get location ''state'' (PStr [])) (\<lambda>state.
     and_then (py_get location ''zip_code'' (PStr [])) (\<lambda>zip_code.
       if \<not> (truthy street \<and> truthy cty \<and> truthy state \<and> truthy zip_code)
       then Inr business
       else store_verification (verify_address service street cty state zip_code) business)))))"

text \<open>The keys \<open>verify_business_address\<close> writes.\<close>

definition verification_keys :: "string list" where
  "verification_keys =
     [''address_verified'', ''address_verification_status'', ''verified_address'',
      ''verified_city'', ''verified_state'', ''verified_zip_code'', ''verification_confidence'',
      ''verification_error'']"

section \<open>The listing as an object: \<open>BusinessFinder._process_single_business\<close>\<close>










section \<open>Result sink: the ingest loop of \<open>dashboard.search_businesses\<close>\<close>

text \<open>
  The \<open>businesses\<close> table is the list of its rows in insertion order; a row maps column
  names to values (the generated \<open>id\<close> and \<open>created_at\<close> are left out).
  \<open>Business.query.filter_by(yelp_id=x).first()\<close> is the first row with that identifier.
\<close>

definition find_by_yelp_id ::
  "(string \<times> pyval) list list \<Rightarrow> pyval \<Rightarrow> (string \<times> pyval) list option" where
  "find_by_yelp_id rows yid = find (\<lambda>row. map_of row ''yelp_id'' = Some yid) rows"

text \<open>The \<open>Business(...)\<close> constructor call, argument by argument.\<close>

definition new_business :: "pyval \<Rightarrow> pyval \<Rightarrow> exn + (string \<times> pyval) list" where
  "new_business business_type business =
     and_then (py_get business ''id'' PNone) (\<lambda>yelp_id.
     and_then (py_get business ''name'' PNone) (\<lambda>name.
     and_then (py_get business ''location'' (PDict [])) (\<lambda>l1.
     and_then (py_get l1 ''address1'' (PStr [])) (\<lambda>address.
     and_then (py_get business ''location'' (PDict [])) (\<lambda>l2.
     and_then (py_get l2 ''city'' (PStr [])) (\<lambda>cty.
     and_then (py_get business ''location'' (PDict [])) (\<lambda>l3.
     and_then (py_get l3 ''state'' (PStr [])) (\<lambda>state.
     and_then (py_get business ''location'' (PDict [])) (\<lambda>l4.
     and_then (py_get l4 ''zip_code'' (PStr [])) (\<lambda>zip_code.
     and_then (py_get business ''phone'' (PStr [])) (\<lambda>phone.
     and_then (py_get business ''url'' (PStr [])) (\<lambda>website.
     and_then (py_get business ''rating'' (PInt 0)) (\<lambda>rating.
     and_then (py_get business ''review_count'' (PInt 0)) (\<lambda>review_count.
     and_then (py_get business ''price'' (PStr [])) (\<lambda>price_level.
     and_then (py_get business ''url'' (PStr [])) (\<lambda>yelp_url.
     and_then (py_get business ''address_verified'' (PBool False)) (\<lambda>address_verified.
     and_then (py_get business ''address_verification_status'' (PStr ''pending'')) (\<lambda>status.
     and_then (py_get business ''verified_address'' PNone) (\<lambda>verified_address.
     and_then (py_get business ''verified_city'' PNone) (\<lambda>verified_city.
     and_then (py_get business ''verified_state'' PNone) (\<lambda>verified_state.
     and_then (py_get business ''verified_zip_code'' PNone) (\<lambda>verified_zip_code.
     and_then (py_get business ''verification_confidence'' (PFloat 0)) (\<lambda>confidence.
       Inr [(''yelp_id'', yelp_id), (''name'', name), (''address'', address), (''city'', cty),
            (''state'', state), (''zip_code'', zip_code), (''phone'', phone),
            (''website'', website), (''business_type'', business_type), (''rating'', rating),
            (''review_count'', review_count), (''price_level'', price_level),
            (''yelp_url'', yelp_url), (''address_verified'', address_verified),
            (''address_verification_status'', status),
            (''verified_address'', verified_address), (''verified_city'', verified_city),
            (''verified_state'', verified_state), (''verified_zip_code'', verified_zip_code),
            (''verification_confidence'', confidence)])))))))))))))))))))))))"

text \<open>
  \<open>db.session.commit()\<close>: \<open>yelp_id\<close> and \<open>name\<close> are declared \<open>nullable=False\<close>, so a
  row without one of them is refused with an \<open>IntegrityError\<close>. The \<open>unique\<close> constraint
  on \<open>yelp_id\<close> cannot fire: a row is added only after the lookup found none.
\<close>

definition commit :: "(string \<times> pyval) list list \<Rightarrow> (string \<times> pyval) list \<Rightarrow>
                      exn + (string \<times> pyval) list list" where
  "commit rows row =
     (if map_of row ''yelp_id'' = Some PNone \<or> map_of row ''name'' = Some PNone
      then Inl (IntegrityError ''NOT NULL constraint failed'')
      else Inr (rows @ [row]))"

text \<open>One pass of the \<open>for\<close> body: the table afterwards and the row reported.\<close>

fun ingest_one ::
  "(pyval \<Rightarrow> pyval \<Rightarrow> pyval \<Rightarrow> pyval \<Rightarrow> http_outcome) option \<Rightarrow> pyval \<Rightarrow>
   (string \<times> pyval) list list \<Rightarrow> pyval \<Rightarrow>
   exn + (string \<times> pyval) list list \<times> (string \<times> pyval) list" where
  "ingest_one verifier business_type rows (PDict d) =
     (case find_by_yelp_id rows (dict_get d ''id'' PNone) of
        Some existing_business \<Rightarrow> Inr (rows, existing_business)
      | None \<Rightarrow>
          and_then (if map_of d ''address_verified'' = None
                    then verify_business_address verifier (PDict d)
                    else Inr (PDict d)) (\<lambda>business.
          and_then (new_business business_type business) (\<lambda>row.
          and_then (commit rows row) (\<lambda>rows'. Inr (rows', row)))))"
| "ingest_one verifier business_type rows _ = Inl (AttributeError ''object has no attribute get'')"

text \<open>
  The loop. An exception ends the request with an error response; what was committed
  before stays in the table.
\<close>

fun ingest ::
  "(pyval \<Rightarrow> pyval \<Rightarrow> pyval \<Rightarrow> pyval \<Rightarrow> http_outcome) option \<Rightarrow> pyval \<Rightarrow>
   (string \<times> pyval) list list \<Rightarrow> pyval list \<Rightarrow> (string \<times> pyval) list list \<Rightarrow>
   (string \<times> pyval) list list \<times> (exn + (string \<times> pyval) list list)" where
  "ingest verifier business_type rows [] results = (rows, Inr results)"
| "ingest verifier business_type rows (business # businesses) results =
     (case ingest_one verifier business_type rows business of
        Inl e \<Rightarrow> (rows, Inl e)
      | Inr (rows', row) \<Rightarrow>
          ingest verifier business_type rows' businesses (results @ [row]))"

text \<open>A listing whose identifier is already in the table.\<close>

definition known :: "(string \<times> pyval) list list \<Rightarrow> pyval \<Rightarrow> bool" where
  "known rows business =
     (case business of
        PDict d \<Rightarrow> find_by_yelp_id rows (dict_get d ''id'' PNone) \<noteq> None
      | _ \<Rightarrow> False)"


text \<open>A listing the table accepts: its location is an object, its identifier and name are present.\<close>

definition storable :: "(string \<times> pyval) list \<Rightarrow> bool" where
  "storable d =
     (is_dict (dict_get d ''location'' (PDict [])) \<and>
      dict_get d ''id'' PNone \<noteq> PNone \<and> dict_get d ''name'' PNone \<noteq> PNone)"

section \<open>Stub services and sample data\<close>

text \<open>
  The collaborators of the concrete scenarios: a directory API whose every page holds
  the same three listings, the search criteria of the scenario, a fresh finder, a place
  search with and without a candidate, a place-detail call, and verification services
  that find nothing, confirm an address, confirm one and state both flags as \<open>N\<close>,
  reject one, and time out; a listing with a
  complete address, a batch of two listings, and a listing that reuses an identifier of
  the batch with new data.
\<close>

text \<open>
  The lowering of the scenarios: it agrees with \<open>str.lower()\<close> on ASCII text, which is
  all the scenarios use.
\<close>

definition ascii_lower_char :: "char \<Rightarrow> char" where
  "ascii_lower_char c =
     (let n = (of_char c :: nat) in if 65 \<le> n \<and> n \<le> 90 then char_of (n + 32) else c)"

definition ascii_lower :: "string \<Rightarrow> string" where
  "ascii_lower s = map ascii_lower_char s"

definition stub_directory :: "(string \<times> pyval) list \<Rightarrow> http_outcome" where [simp]:
  "stub_directory req =
     Json (PDict [(''businesses'',
             PList [PDict [(''id'', PStr ''a'')], PDict [(''id'', PStr ''b'')],
                    PDict [(''id'', PStr ''c'')]])])"

text \<open>
  A directory API that serves seventy listings in pages, as the request's limit and
  offset ask, and criteria that want sixty of them.
\<close>

definition requested_offset :: "(string \<times> pyval) list \<Rightarrow> int" where
  "requested_offset params = (case map_of params ''offset'' of Some (PInt n) \<Rightarrow> n | _ \<Rightarrow> 0)"

definition stub_pool :: "pyval list" where
  "stub_pool = map (\<lambda>i. PDict [(''id'', PInt i)]) [0..69]"

definition stub_paged :: "(string \<times> pyval) list \<Rightarrow> http_outcome" where
  "stub_paged req =
     Json (PDict [(''businesses'',
       PList (take (nat (requested_limit req)) (drop (nat (requested_offset req)) stub_pool)))])"

definition sixty_criteria :: BusinessSearchParams where
  "sixty_criteria =
     \<lparr>city = ''Nashville, TN'', industry = ''restaurants'', distance_miles = 5, max_results = 60\<rparr>"

definition nashville_criteria :: BusinessSearchParams where [simp]:
  "nashville_criteria =
     \<lparr>city = ''Nashville, TN'', industry = ''restaurants'', distance_miles = 5, max_results = 3\<rparr>"

definition new_finder :: finder where [simp]:
  "new_finder = \<lparr>google_cache = Map.empty, google_api_calls = 0, upstream = []\<rparr>"

definition stub_places_no_match :: "string \<Rightarrow> exn + pyval" where [simp]:
  "stub_places_no_match q = Inr (PDict [(''results'', PList [])])"

definition stub_places_found :: "string \<Rightarrow> exn + pyval" where [simp]:
  "stub_places_found q = Inr (PDict [(''results'', PList [PDict [(''place_id'', PStr ''p1'')]])])"

definition stub_place_details :: "pyval \<Rightarrow> exn + pyval" where [simp]:
  "stub_place_details i =
     Inr (PDict [(''result'', PDict [(''formatted_phone_number'', PStr ''615-555-0100'')])])"


definition stub_smarty_deliverable :: "pyval \<Rightarrow> pyval \<Rightarrow> pyval \<Rightarrow> pyval \<Rightarrow> http_outcome" where [simp]:
  "stub_smarty_deliverable s c st z =
     Json (PList [PDict [(''delivery_line_1'', PStr ''1 Main St''),
                         (''components'', PDict [(''city_name'', PStr ''Nashville'')]),
                         (''analysis'', PDict [(''dpv_match_code'', PStr ''Y'')])]])"

definition stub_smarty_flags_N :: "pyval \<Rightarrow> pyval \<Rightarrow> pyval \<Rightarrow> pyval \<Rightarrow> http_outcome" where [simp]:
  "stub_smarty_flags_N s c st z =
     Json (PList [PDict [(''delivery_line_1'', PStr ''1 Main St''),
                         (''components'', PDict [(''city_name'', PStr ''Nashville'')]),
                         (''analysis'', PDict [(''dpv_match_code'', PStr ''Y''),
                                               (''dpv_vacant'', PStr ''N''),
                                               (''dpv_cmra'', PStr ''N'')])]])"

definition stub_smarty_undeliverable :: "pyval \<Rightarrow> pyval \<Rightarrow> pyval \<Rightarrow> pyval \<Rightarrow> http_outcome" where [simp]:
  "stub_smarty_undeliverable s c st z =
     Json (PList [PDict [(''analysis'', PDict [(''dpv_match_code'', PStr ''N'')])]])"

definition stub_smarty_timeout :: "pyval \<Rightarrow> pyval \<Rightarrow> pyval \<Rightarrow> pyval \<Rightarrow> http_outcome" where [simp]:
  "stub_smarty_timeout s c st z = Raises (RequestException ''timed out'')"




definition sample_batch :: "pyval list" where [simp]:
  "sample_batch =
     [PDict [(''id'', PStr ''a1''), (''name'', PStr ''Cafe'')],
      PDict [(''id'', PStr ''b2''), (''name'', PStr ''Deli'')]]"

definition changed_listing :: pyval where [simp]:
  "changed_listing =
     PDict [(''id'', PStr ''a1''), (''name'', PStr ''Cafe Nouveau''),
            (''phone'', PStr ''615-555-0100'')]"

section \<open>Properties of reconciliation\<close>

lemma map_of_dict_set: "map_of (dict_set d k v) k' = (if k' = k then Some v else map_of d k')"
  by (induction d) auto

lemma yelp_info_phone:
  assumes "wf_listing y"
  shows "\<exists>info. yelp_info y = Inr info \<and> map_of info ''phone'' = Some (listing_phone y)"
proof -
  from assms obtain d where y: "y = PDict d"
    by (cases y) (auto simp: wf_listing_def)
  from assms y have "is_dict (case map_of d ''location'' of None \<Rightarrow> PDict [] | Some v \<Rightarrow> v)"
    by (auto simp: wf_listing_def split: option.splits)
  then obtain l where l: "(case map_of d ''location'' of None \<Rightarrow> PDict [] | Some v \<Rightarrow> v) = PDict l"
    by (cases "case map_of d ''location'' of None \<Rightarrow> PDict [] | Some v \<Rightarrow> v") auto
  show ?thesis
    unfolding y yelp_info_def listing_phone_def by (simp add: l)
qed

lemma verified_data0_lookup:
  "map_of (verified_data0 info) ''confidence_level'' = Some (PStr ''medium'')"
  "map_of (verified_data0 info) ''business_status'' = Some (PStr ''unknown'')"
  "map_of (verified_data0 info) ''verified_phone'' =
     Some (case map_of info ''phone'' of None \<Rightarrow> PNone | Some v \<Rightarrow> v)"
  by (simp_all add: verified_data0_def)

lemma check_closed_dict:
  "check_closed (PDict gd) vd = Inr vd' \<Longrightarrow>
     map_of vd' ''verified_phone'' = map_of vd ''verified_phone'' \<and>
     (if indicates_closed (PDict gd)
      then map_of vd' ''confidence_level'' = Some (PStr ''high'') \<and>
           map_of vd' ''business_status'' = Some (PStr ''closed'')
      else vd' = vd)"
  by (auto simp: check_closed_def indicates_closed_def map_of_dict_set
           split: option.splits if_splits)

lemma check_closed_total: "\<exists>vd'. check_closed (PDict gd) vd = Inr vd'"
  by (simp add: check_closed_def)

lemma backfill_phone_dict:
  assumes "map_of vd ''verified_phone'' = Some p"
  shows "\<exists>out. backfill_phone (PDict gd) vd = Inr out \<and>
     map_of out ''confidence_level'' = map_of vd ''confidence_level'' \<and>
     map_of out ''business_status'' = map_of vd ''business_status'' \<and>
     map_of out ''verified_phone'' =
       Some (if \<not> truthy p \<and> truthy (xref_phone (PDict gd)) then xref_phone (PDict gd) else p)"
  using assms
  by (auto simp: backfill_phone_def xref_phone_def map_of_dict_set split: option.splits)

lemma fast_verify_spec:
  assumes "wf_listing y" and "wf_xref g"
  shows "\<exists>out. fast_verify_business y g = Inr out \<and>
     map_of out ''confidence_level'' =
       Some (PStr (if indicates_closed g then ''high'' else ''medium'')) \<and>
     map_of out ''business_status'' =
       Some (PStr (if indicates_closed g then ''closed'' else ''unknown'')) \<and>
     map_of out ''verified_phone'' =
       Some (if \<not> truthy (listing_phone y) \<and> truthy (xref_phone g)
             then xref_phone g else listing_phone y)"
proof -
  from yelp_info_phone[OF assms(1)] obtain info
    where info: "yelp_info y = Inr info" "map_of info ''phone'' = Some (listing_phone y)"
    by blast
  let ?vd = "verified_data0 info"
  have ph: "map_of ?vd ''verified_phone'' = Some (listing_phone y)"
    by (simp add: verified_data0_lookup info)
  show ?thesis
  proof (cases "truthy g")
    case False
    with assms(2) have nc: "\<not> indicates_closed g" "\<not> truthy (xref_phone g)"
      by (cases g; auto simp: indicates_closed_def xref_phone_def wf_xref_def)+
    show ?thesis
      using False nc ph by (simp add: fast_verify_business_def info verified_data0_lookup)
  next
    case True
    with assms(2) obtain gd where g: "g = PDict gd"
      by (cases g) (auto simp: wf_xref_def)
    obtain vd' where vd': "check_closed (PDict gd) ?vd = Inr vd'"
      using check_closed_total by blast
    note cc = check_closed_dict[OF vd']
    from cc ph have ph': "map_of vd' ''verified_phone'' = Some (listing_phone y)"
      by simp
    from backfill_phone_dict[OF ph', of gd] obtain out where
      out: "backfill_phone (PDict gd) vd' = Inr out"
        "map_of out ''confidence_level'' = map_of vd' ''confidence_level''"
        "map_of out ''business_status'' = map_of vd' ''business_status''"
        "map_of out ''verified_phone'' =
           Some (if \<not> truthy (listing_phone y) \<and> truthy (xref_phone (PDict gd))
                 then xref_phone (PDict gd) else listing_phone y)"
      by blast
    have fv: "fast_verify_business y g = Inr out"
      using True by (simp add: fast_verify_business_def info g vd' out(1))
    show ?thesis
    proof (cases "indicates_closed g")
      case True
      with cc g out fv show ?thesis by simp
    next
      case False
      with cc g have "vd' = ?vd" by simp
      with out fv False g show ?thesis by (simp add: verified_data0_lookup)
    qed
  qed
qed

lemma fast_verify_level:
  assumes "fast_verify_business y g = Inr out"
  shows "map_of out ''confidence_level'' = Some (PStr ''medium'') \<or>
         map_of out ''confidence_level'' = Some (PStr ''high'')"
  using assms
  by (auto simp: fast_verify_business_def check_closed_def backfill_phone_def map_of_dict_set
                 verified_data0_lookup Let_def
           split: sum.splits if_splits option.splits)

text \<open>
  C3. Reconciling a well-formed listing with an optional cross-reference record always
  yields an output. When the record says \<open>CLOSED_PERMANENTLY\<close> the output has confidence
  level "high" and business status "closed"; in every other case, also with no record at
  all, it has confidence level "medium" and business status "unknown".
\<close>

theorem fast_verify_closed_or_default:
  assumes "wf_listing y" and "wf_xref g"
  shows "\<exists>out. fast_verify_business y g = Inr out \<and>
     (if indicates_closed g
      then map_of out ''confidence_level'' = Some (PStr ''high'') \<and>
           map_of out ''business_status'' = Some (PStr ''closed'')
      else map_of out ''confidence_level'' = Some (PStr ''medium'') \<and>
           map_of out ''business_status'' = Some (PStr ''unknown''))"
  using fast_verify_spec[OF assms] by (cases "indicates_closed g") auto

theorem fast_verify_closed_or_default_witness:
  "wf_listing (PDict [(''id'', PStr ''a1''), (''name'', PStr ''Cafe'')]) \<and>
   wf_xref (PDict [(''business_status'', PStr ''CLOSED_PERMANENTLY'')]) \<and>
   indicates_closed (PDict [(''business_status'', PStr ''CLOSED_PERMANENTLY'')]) \<and>
   (\<exists>out. fast_verify_business (PDict [(''id'', PStr ''a1''), (''name'', PStr ''Cafe'')])
             (PDict [(''business_status'', PStr ''CLOSED_PERMANENTLY'')]) = Inr out \<and>
          map_of out ''confidence_level'' = Some (PStr ''high'') \<and>
          map_of out ''business_status'' = Some (PStr ''closed''))"
  using fast_verify_closed_or_default
          [of "PDict [(''id'', PStr ''a1''), (''name'', PStr ''Cafe'')]"
              "PDict [(''business_status'', PStr ''CLOSED_PERMANENTLY'')]"]
  by (simp add: wf_listing_def wf_xref_def indicates_closed_def)

text \<open>
  C4. For a well-formed listing whose phone is missing (absent, \<open>None\<close> or empty), the
  output phone is the cross-reference record's phone when a record is present and
  carries one, and otherwise stays the listing's own, empty, value.
\<close>

theorem fast_verify_phone_backfill:
  assumes "wf_listing y" and "wf_xref g" and "\<not> truthy (listing_phone y)"
  shows "\<exists>out. fast_verify_business y g = Inr out \<and>
     (if truthy (xref_phone g)
      then map_of out ''verified_phone'' = Some (xref_phone g)
      else map_of out ''verified_phone'' = Some (listing_phone y) \<and>
           \<not> truthy (listing_phone y))"
  using fast_verify_spec[OF assms(1,2)] assms(3) by (cases "truthy (xref_phone g)") auto

theorem fast_verify_phone_backfill_witness:
  "wf_listing (PDict [(''id'', PStr ''a1''), (''name'', PStr ''Cafe'')]) \<and>
   wf_xref (PDict [(''formatted_phone_number'', PStr ''615-555-0100'')]) \<and>
   \<not> truthy (listing_phone (PDict [(''id'', PStr ''a1''), (''name'', PStr ''Cafe'')])) \<and>
   (\<exists>out. fast_verify_business (PDict [(''id'', PStr ''a1''), (''name'', PStr ''Cafe'')])
             (PDict [(''formatted_phone_number'', PStr ''615-555-0100'')]) = Inr out \<and>
          map_of out ''verified_phone'' = Some (PStr ''615-555-0100''))"
  using fast_verify_phone_backfill
          [of "PDict [(''id'', PStr ''a1''), (''name'', PStr ''Cafe'')]"
              "PDict [(''formatted_phone_number'', PStr ''615-555-0100'')]"]
  by (simp add: wf_listing_def wf_xref_def listing_phone_def xref_phone_def)

text \<open>
  C10. Reconciliation returns for every well-formed pair of inputs, and whatever it
  returns carries confidence level "medium" or "high": "low" is never assigned.
\<close>

theorem confidence_level_medium_or_high:
  "(wf_listing y \<and> wf_xref g \<longrightarrow> (\<exists>out. fast_verify_business y g = Inr out)) \<and>
   (\<forall>out. fast_verify_business y g = Inr out \<longrightarrow>
      (map_of out ''confidence_level'' = Some (PStr ''medium'') \<or>
       map_of out ''confidence_level'' = Some (PStr ''high'')) \<and>
      map_of out ''confidence_level'' \<noteq> Some (PStr ''low''))"
proof (intro conjI impI allI)
  assume "wf_listing y \<and> wf_xref g"
  then show "\<exists>out. fast_verify_business y g = Inr out"
    using fast_verify_spec[of y g] by blast
next
  fix out
  assume "fast_verify_business y g = Inr out"
  from fast_verify_level[OF this]
  show "map_of out ''confidence_level'' = Some (PStr ''medium'') \<or>
        map_of out ''confidence_level'' = Some (PStr ''high'')" .
  then show "map_of out ''confidence_level'' \<noteq> Some (PStr ''low'')"
    by auto
qed

theorem confidence_level_medium_or_high_witness:
  "wf_listing (PDict [(''id'', PStr ''a1''), (''phone'', PStr ''+16155550100'')]) \<and>
   wf_xref PNone \<and>
   (\<exists>out. fast_verify_business
             (PDict [(''id'', PStr ''a1''), (''phone'', PStr ''+16155550100'')]) PNone = Inr out \<and>
          map_of out ''confidence_level'' = Some (PStr ''medium''))"
  using confidence_level_medium_or_high
          [of "PDict [(''id'', PStr ''a1''), (''phone'', PStr ''+16155550100'')]" PNone]
  by (simp add: wf_listing_def wf_xref_def fast_verify_business_def yelp_info_def
                verified_data0_def)

section \<open>Properties of the directory search\<close>

declare yelp_loop.simps [simp del]
declare client_loop.simps [simp del]

lemma requested_limit_params_dict [simp]: "requested_limit (params_dict p radius limit offset) = limit"
  by (simp add: requested_limit_def params_dict_def)

lemma falsy_iter_nil: "\<not> truthy v \<Longrightarrow> py_iter v = Inr items \<Longrightarrow> items = []"
  by (cases v) auto

lemma truthy_iter_nonempty: "truthy v \<Longrightarrow> py_iter v = Inr items \<Longrightarrow> items \<noteq> []"
  by (cases v) auto

lemma yelp_loop_trace:
  "\<exists>new. snd (yelp_loop api p radius limit all_businesses offset trace) = trace @ new \<and>
         (\<forall>x \<in> set (butlast new). full_page x) \<and>
         (\<forall>res. fst (yelp_loop api p radius limit all_businesses offset trace) = Inr res \<longrightarrow>
            res = all_businesses @ concat (map (\<lambda>x. page_items (snd x)) new))"
proof (induction api p radius limit all_businesses offset trace rule: yelp_loop.induct)
  case (1 api p radius limit all_businesses offset trace)
  let ?req = "params_dict p radius limit offset"
  note eq = yelp_loop.simps[of api p radius limit all_businesses offset trace]
  show ?case
  proof (cases "int (length all_businesses) < max_results p")
    case False
    then show ?thesis by (simp add: eq)
  next
    case lt: True
    show ?thesis
    proof (cases "api ?req")
      case (Raises e)
      then show ?thesis using lt
        by (cases e) (auto simp: eq page_items_def)
    next
      case (Json body)
      show ?thesis
      proof (cases "py_get body ''businesses'' (PList [])")
        case (Inl e)
        then show ?thesis using lt Json by (auto simp: eq page_items_def)
      next
        case (Inr page)
        show ?thesis
        proof (cases "truthy page")
          case False
          then show ?thesis using lt Json Inr
            by (auto simp: eq page_items_def dest: falsy_iter_nil split: sum.splits)
        next
          case tr: True
          show ?thesis
          proof (cases "py_iter page")
            case (Inl e)
            then show ?thesis using lt Json Inr tr by (auto simp: eq page_items_def)
          next
            case items: (Inr items)
            have pi: "page_items (Json body) = items"
              by (simp add: page_items_def Inr items)
            show ?thesis
            proof (cases "int (length items) < limit")
              case True
              then show ?thesis using lt Json Inr tr items pi by (auto simp: eq)
            next
              case False
              from "1.IH"[OF lt Json Inr _ items False] tr
              obtain new where new:
                "snd (yelp_loop api p radius limit (all_businesses @ items) (offset + int (length items))
                       (trace @ [(?req, Json body)])) = (trace @ [(?req, Json body)]) @ new"
                "\<forall>x \<in> set (butlast new). full_page x"
                "\<forall>res. fst (yelp_loop api p radius limit (all_businesses @ items) (offset + int (length items))
                       (trace @ [(?req, Json body)])) = Inr res \<longrightarrow>
                   res = (all_businesses @ items) @ concat (map (\<lambda>x. page_items (snd x)) new)"
                by auto
              have step: "yelp_loop api p radius limit all_businesses offset trace =
                  yelp_loop api p radius limit (all_businesses @ items) (offset + int (length items))
                       (trace @ [(?req, Json body)])"
                using lt Json Inr tr items False by (simp add: eq)
              have full: "full_page (?req, Json body)"
                using False truthy_iter_nonempty[OF tr items] by (simp add: full_page_def pi)
              have bl: "\<forall>x \<in> set (butlast ((?req, Json body) # new)). full_page x"
                using new(2) full by (auto simp: butlast.simps(2) split: if_splits)
              show ?thesis
                apply (rule exI[of _ "(?req, Json body) # new"])
                using new(1,3) bl pi by (simp add: step)
            qed
          qed
        qed
      qed
    qed
  qed
qed



lemma yelp_loop_returns:
  "\<forall>req. wf_response (api req) \<Longrightarrow>
   \<exists>res. fst (yelp_loop api p radius limit all_businesses offset trace) = Inr res"
proof (induction api p radius limit all_businesses offset trace rule: yelp_loop.induct)
  case (1 api p radius limit all_businesses offset trace)
  let ?req = "params_dict p radius limit offset"
  note eq = yelp_loop.simps[of api p radius limit all_businesses offset trace]
  from "1.prems" have wf: "wf_response (api ?req)" by blast
  show ?case
  proof (cases "int (length all_businesses) < max_results p")
    case False
    then show ?thesis by (simp add: eq)
  next
    case lt: True
    show ?thesis
    proof (cases "api ?req")
      case (Raises e)
      with wf lt show ?thesis
        by (cases e) (auto simp: eq wf_response_def)
    next
      case (Json body)
      with wf obtain d where body: "body = PDict d"
        by (cases body) (auto simp: wf_response_def)
      obtain page where page: "py_get body ''businesses'' (PList []) = Inr page"
        by (simp add: body)
      from wf Json body page obtain xs where xs: "page = PList xs"
        by (auto simp: wf_response_def split: option.splits pyval.splits)
      show ?thesis
      proof (cases "xs = [] \<or> int (length xs) < limit")
        case True
        then show ?thesis using lt Json page xs by (auto simp: eq)
      next
        case False
        then have tr: "truthy page" and nl: "\<not> int (length xs) < limit"
          by (auto simp: xs)
        have it: "py_iter page = Inr xs" by (simp add: xs)
        from "1.IH"[OF lt Json page _ it nl "1.prems"] tr
        show ?thesis using lt Json page tr it nl by (simp add: eq)
      qed
    qed
  qed
qed

lemma requested_limit_search_params [simp]:
  "requested_limit (search_request_params location business_type radius limit offset) = limit"
  by (simp add: requested_limit_def search_request_params_def map_of_dict_set Let_def)

lemma page_step_Inr_full:
  assumes "page_step maxr cl businesses
             (make_search_request api location business_type radius cl offset) = Inr businesses'"
    and "1 \<le> cl"
  shows "full_page (search_request_params location business_type radius cl offset,
                    api (search_request_params location business_type radius cl offset))"
proof -
  let ?req = "search_request_params location business_type radius cl offset"
  from assms(1) obtain response page items where
    r: "make_search_request api location business_type radius cl offset = Inr response"
    and tr: "truthy response"
    and pg: "py_get response ''businesses'' (PList []) = Inr page"
    and it: "py_iter page = Inr items"
    and len: "\<not> int (length items) < cl"
    by (auto simp: page_step_def split: sum.splits if_splits option.splits prod.splits)
  from r tr have "api ?req = Json response"
    by (auto simp: make_search_request_def split: http_outcome.splits exn.splits)
  then have "page_items (api ?req) = items"
    by (simp add: page_items_def pg it)
  with len assms(2) show ?thesis
    by (auto simp: full_page_def)
qed

lemma client_loop_trace:
  "\<exists>new. snd (client_loop api location business_type radius maxr businesses offset trace) = trace @ new \<and>
         (\<forall>x \<in> set (butlast new). full_page x)"
proof (induction api location business_type radius maxr businesses offset trace rule: client_loop.induct)
  case (1 api location business_type radius maxr businesses offset trace)
  let ?cl = "min (min 50 maxr) (maxr - int (length businesses))"
  let ?req = "search_request_params location business_type radius ?cl offset"
  let ?step = "page_step maxr ?cl businesses
                 (make_search_request api location business_type radius ?cl offset)"
  note eq = client_loop.simps[of api location business_type radius maxr businesses offset trace]
  show ?case
  proof (cases "int (length businesses) < maxr")
    case False
    then show ?thesis by (simp add: eq)
  next
    case lt: True
    then have cl: "1 \<le> ?cl" by simp
    show ?thesis
    proof (cases ?step)
      case (Inl bs)
      then show ?thesis using lt by (simp add: eq)
    next
      case (Inr bs)
      from "1.IH"[OF lt Inr] obtain new where new:
        "snd (client_loop api location business_type radius maxr bs (offset + ?cl)
                (trace @ [(?req, api ?req)])) = (trace @ [(?req, api ?req)]) @ new"
        "\<forall>x \<in> set (butlast new). full_page x"
        by blast
      have full: "full_page (?req, api ?req)"
        by (rule page_step_Inr_full[OF Inr cl])
      have bl: "\<forall>x \<in> set (butlast ((?req, api ?req) # new)). full_page x"
        using new(2) full by (auto split: if_splits)
      have step: "client_loop api location business_type radius maxr businesses offset trace =
                  client_loop api location business_type radius maxr bs (offset + ?cl)
                    (trace @ [(?req, api ?req)])"
        using lt Inr by (simp add: eq)
      show ?thesis
        apply (rule exI[of _ "(?req, api ?req) # new"])
        using new(1) bl by (simp add: step)
    qed
  qed
qed

lemma length_py_slice_to: "0 \<le> n \<Longrightarrow> int (length (py_slice_to xs n)) \<le> n"
  by (simp add: py_slice_to_def)


lemma process_page_take:
  "snd (process_page maxr acc items) =
     acc @ take (nat (maxr - int (length acc))) (processed_prefix items)"
proof (induction items arbitrary: acc)
  case Nil
  then show ?case by simp
next
  case (Cons b bs)
  show ?case
  proof (cases "maxr \<le> int (length acc)")
    case True
    then show ?thesis by simp
  next
    case False
    show ?thesis
    proof (cases "process_business b")
      case (Inl e)
      with False show ?thesis by simp
    next
      case (Inr p)
      from False have "nat (maxr - int (length acc)) = Suc (nat (maxr - int (length (acc @ [p]))))"
        by simp
      with False Inr Cons.IH[of "acc @ [p]"] show ?thesis by simp
    qed
  qed
qed

lemma process_page_append:
  "process_page maxr acc xs = (None, acc') \<Longrightarrow>
   process_page maxr acc (xs @ ys) = process_page maxr acc' ys"
proof (induction xs arbitrary: acc)
  case Nil
  then show ?case by simp
next
  case (Cons x xs)
  show ?case
  proof (cases "maxr \<le> int (length acc)")
    case True
    with Cons.prems have "acc' = acc" by simp
    with True show ?thesis by (cases ys) simp_all
  next
    case False
    with Cons.prems obtain p where p: "process_business x = Inr p"
      "process_page maxr (acc @ [p]) xs = (None, acc')"
      by (auto split: sum.splits)
    from Cons.IH[OF p(2)] False p(1) show ?thesis by simp
  qed
qed

lemma falsy_page_items: "\<not> truthy v \<Longrightarrow> page_items (Json v) = []"
  by (cases v) (auto simp: page_items_def)

text \<open>What one pass of the loop body leaves, in terms of the page the exchange delivered.\<close>

lemma page_step_result:
  "(case page_step maxr cl businesses (make_search_request api location business_type radius cl offset) of
      Inl bs \<Rightarrow> bs = snd (process_page maxr businesses
                       (page_items (api (search_request_params location business_type radius cl offset))))
    | Inr bs \<Rightarrow> process_page maxr businesses
                  (page_items (api (search_request_params location business_type radius cl offset))) = (None, bs))"
proof (cases "api (search_request_params location business_type radius cl offset)")
  case (Raises e)
  then show ?thesis
    by (cases e) (simp_all add: make_search_request_def page_step_def page_items_def)
next
  case (Json body)
  show ?thesis
  proof (cases "truthy body")
    case False
    with Json show ?thesis
      by (simp add: make_search_request_def page_step_def falsy_page_items)
  next
    case True
    with Json show ?thesis
      by (auto simp: make_search_request_def page_step_def page_items_def
               split: sum.splits option.splits prod.splits)
  qed
qed

lemma client_loop_result:
  "\<exists>new. snd (client_loop api location business_type radius maxr businesses offset trace) = trace @ new \<and>
         fst (client_loop api location business_type radius maxr businesses offset trace) =
           snd (process_page maxr businesses (concat (map (\<lambda>x. page_items (snd x)) new)))"
proof (induction api location business_type radius maxr businesses offset trace rule: client_loop.induct)
  case (1 api location business_type radius maxr businesses offset trace)
  let ?cl = "min (min 50 maxr) (maxr - int (length businesses))"
  let ?req = "search_request_params location business_type radius ?cl offset"
  let ?step = "page_step maxr ?cl businesses
                 (make_search_request api location business_type radius ?cl offset)"
  note eq = client_loop.simps[of api location business_type radius maxr businesses offset trace]
  note ps = page_step_result[where maxr = maxr and cl = ?cl and businesses = businesses and api = api
      and location = location and business_type = business_type and radius = radius and offset = offset]
  show ?case
  proof (cases "int (length businesses) < maxr")
    case False
    then show ?thesis by (simp add: eq)
  next
    case lt: True
    show ?thesis
    proof (cases ?step)
      case (Inl bs)
      with ps have "bs = snd (process_page maxr businesses (page_items (api ?req)))" by simp
      then show ?thesis using lt Inl
        by (intro exI[of _ "[(?req, api ?req)]"]) (simp add: eq)
    next
      case (Inr bs)
      with ps have pp: "process_page maxr businesses (page_items (api ?req)) = (None, bs)" by simp
      from "1.IH"[OF lt Inr] obtain new where new:
        "snd (client_loop api location business_type radius maxr bs (offset + ?cl)
                (trace @ [(?req, api ?req)])) = (trace @ [(?req, api ?req)]) @ new"
        "fst (client_loop api location business_type radius maxr bs (offset + ?cl)
                (trace @ [(?req, api ?req)])) =
           snd (process_page maxr bs (concat (map (\<lambda>x. page_items (snd x)) new)))"
        by blast
      have step: "client_loop api location business_type radius maxr businesses offset trace =
                  client_loop api location business_type radius maxr bs (offset + ?cl)
                    (trace @ [(?req, api ?req)])"
        using lt Inr by (simp add: eq)
      show ?thesis
        apply (rule exI[of _ "(?req, api ?req) # new"])
        using new process_page_append[OF pp, of "concat (map (\<lambda>x. page_items (snd x)) new)"]
        by (simp add: step)
    qed
  qed
qed

text \<open>
  C1. With \<open>max_results = N > 0\<close>, both directory searches return at most \<open>N\<close> listings,
  and what they return is the accumulated list cut to \<open>N\<close>: \<open>search_yelp_businesses\<close>
  returns the first \<open>N\<close> of the listings its pages delivered, \<open>search_businesses\<close> the
  first \<open>N\<close> of those listings processed (up to one it cannot process).
  \<open>search_yelp_businesses\<close> returns whenever the API answers in its documented shape.
  In both searches every exchange but the last delivered a non-empty page of at least
  the requested size: a short or empty page, like a failed request, ends the
  pagination.
\<close>

theorem search_bounded_and_stops:
  assumes "0 < max_results p" and "0 < maxr"
  shows
    "(\<forall>res. fst (search_yelp_businesses api p) = Inr res \<longrightarrow>
        int (length res) \<le> max_results p \<and>
        res = take (nat (max_results p))
                (concat (map (\<lambda>x. page_items (snd x)) (snd (search_yelp_businesses api p))))) \<and>
     (\<forall>x \<in> set (butlast (snd (search_yelp_businesses api p))). full_page x) \<and>
     ((\<forall>req. wf_response (api req)) \<longrightarrow> (\<exists>res. fst (search_yelp_businesses api p) = Inr res)) \<and>
     (truthy api_key \<longrightarrow>
        (\<exists>res. fst (search_businesses api' api_key location business_type radius maxr) = Inr res \<and>
               int (length res) \<le> maxr \<and>
               res = take (nat maxr)
                       (processed_prefix
                          (concat (map (\<lambda>x. page_items (snd x))
                             (snd (search_businesses api' api_key location business_type radius
                                     maxr))))))) \<and>
     (\<forall>x \<in> set (butlast (snd (search_businesses api' api_key location business_type radius maxr))).
        full_page x)"
proof -
  let ?r = "radius_meters (distance_miles p)"
  let ?l = "min 50 (max_results p)"
  let ?loop = "yelp_loop api p ?r ?l [] 0 []"
  from assms(1) have l0: "?l \<noteq> 0" by simp
  from yelp_loop_trace[of api p ?r ?l "[]" 0 "[]"] obtain new where new:
    "snd ?loop = new" "\<forall>x \<in> set (butlast new). full_page x"
    "\<forall>res. fst ?loop = Inr res \<longrightarrow> res = concat (map (\<lambda>x. page_items (snd x)) new)"
    by auto
  have snd_eq: "snd (search_yelp_businesses api p) = new"
    by (simp add: search_yelp_businesses_def Let_def new(1))
  have a: "\<forall>res. fst (search_yelp_businesses api p) = Inr res \<longrightarrow>
        int (length res) \<le> max_results p \<and>
        res = take (nat (max_results p))
                (concat (map (\<lambda>x. page_items (snd x)) (snd (search_yelp_businesses api p))))"
  proof (intro allI impI)
    fix res assume r: "fst (search_yelp_businesses api p) = Inr res"
    then obtain al where al: "fst ?loop = Inr al" "res = py_slice_to al (max_results p)"
      using l0 by (auto simp: search_yelp_businesses_def Let_def split: sum.splits if_splits)
    from new(3) al(1) have "al = concat (map (\<lambda>x. page_items (snd x)) new)" by blast
    with al(2) assms(1) show "int (length res) \<le> max_results p \<and>
        res = take (nat (max_results p))
                (concat (map (\<lambda>x. page_items (snd x)) (snd (search_yelp_businesses api p))))"
      by (simp add: snd_eq py_slice_to_def)
  qed
  have b: "\<forall>x \<in> set (butlast (snd (search_yelp_businesses api p))). full_page x"
    using new(2) by (simp add: snd_eq)
  have c: "(\<forall>req. wf_response (api req)) \<longrightarrow> (\<exists>res. fst (search_yelp_businesses api p) = Inr res)"
  proof
    assume "\<forall>req. wf_response (api req)"
    from yelp_loop_returns[OF this, of p ?r ?l "[]" 0 "[]"] obtain al where "fst ?loop = Inr al"
      by blast
    then show "\<exists>res. fst (search_yelp_businesses api p) = Inr res"
      using l0 by (simp add: search_yelp_businesses_def Let_def)
  qed
  have d: "truthy api_key \<longrightarrow>
        (\<exists>res. fst (search_businesses api' api_key location business_type radius maxr) = Inr res \<and>
               int (length res) \<le> maxr \<and>
               res = take (nat maxr)
                       (processed_prefix
                          (concat (map (\<lambda>x. page_items (snd x))
                             (snd (search_businesses api' api_key location business_type radius
                                     maxr))))))"
  proof
    assume key: "truthy api_key"
    let ?c = "client_loop api' location business_type radius maxr [] 0 []"
    from client_loop_result[of api' location business_type radius maxr "[]" 0 "[]"]
    have "fst ?c = snd (process_page maxr [] (concat (map (\<lambda>x. page_items (snd x)) (snd ?c))))"
      by auto
    then have c: "fst ?c = take (nat maxr) (processed_prefix (concat (map (\<lambda>x. page_items (snd x)) (snd ?c))))"
      by (simp add: process_page_take)
    have f: "fst (search_businesses api' api_key location business_type radius maxr) =
               Inr (py_slice_to (fst ?c) maxr)"
      and t: "snd (search_businesses api' api_key location business_type radius maxr) = snd ?c"
      using key by (simp_all add: search_businesses_def Let_def)
    have "py_slice_to (take (nat maxr) ys) maxr = take (nat maxr) ys" for ys :: "pyval list"
      using assms(2) by (simp add: py_slice_to_def)
    from this[of "processed_prefix (concat (map (\<lambda>x. page_items (snd x)) (snd ?c)))"]
    have "py_slice_to (fst ?c) maxr = fst ?c"
      by (simp only: c [symmetric])
    with c f t assms(2) show "\<exists>res. fst (search_businesses api' api_key location business_type radius maxr) = Inr res \<and>
               int (length res) \<le> maxr \<and>
               res = take (nat maxr)
                       (processed_prefix
                          (concat (map (\<lambda>x. page_items (snd x))
                             (snd (search_businesses api' api_key location business_type radius
                                     maxr)))))"
      by simp
  qed
  from client_loop_trace[of api' location business_type radius maxr "[]" 0 "[]"]
  have e: "\<forall>x \<in> set (butlast (snd (search_businesses api' api_key location business_type radius maxr))).
        full_page x"
    by (auto simp: search_businesses_def Let_def)
  from a b c d e show ?thesis by blast
qed

lemma paged_search_run:
  "fst (search_yelp_businesses stub_paged sixty_criteria) = Inr (take 60 stub_pool)"
  "length (snd (search_yelp_businesses stub_paged sixty_criteria)) = 2"
  by code_simp+

lemma paged_client_run:
  "fst (search_businesses stub_paged (PStr ''key'') (PStr ''Nashville, TN'') PNone (PInt 8046) 60)
     = Inr (processed_prefix (take 60 stub_pool))"
  "map (\<lambda>x. requested_limit (fst x))
     (snd (search_businesses stub_paged (PStr ''key'') (PStr ''Nashville, TN'') PNone
             (PInt 8046) 60)) = [50, 10]"
  by code_simp+

lemma three_listing_run:
  "fst (search_yelp_businesses stub_directory nashville_criteria) =
     Inr [PDict [(''id'', PStr ''a'')], PDict [(''id'', PStr ''b'')], PDict [(''id'', PStr ''c'')]]"
  "length (snd (search_yelp_businesses stub_directory nashville_criteria)) = 1"
  by (simp_all add: search_yelp_businesses_def yelp_loop.simps Let_def py_slice_to_def)

theorem search_bounded_and_stops_witness:
  "0 < max_results sixty_criteria \<and> (0::int) < 60 \<and>
   fst (search_yelp_businesses stub_paged sixty_criteria) = Inr (take 60 stub_pool) \<and>
   int (length (take 60 stub_pool)) \<le> max_results sixty_criteria \<and>
   length (snd (search_yelp_businesses stub_paged sixty_criteria)) = 2 \<and>
   fst (search_businesses stub_paged (PStr ''key'') (PStr ''Nashville, TN'') PNone (PInt 8046) 60)
     = Inr (processed_prefix (take 60 stub_pool)) \<and>
   map (\<lambda>x. requested_limit (fst x))
     (snd (search_businesses stub_paged (PStr ''key'') (PStr ''Nashville, TN'') PNone
             (PInt 8046) 60)) = [50, 10] \<and>
   fst (search_yelp_businesses stub_directory nashville_criteria) =
     Inr [PDict [(''id'', PStr ''a'')], PDict [(''id'', PStr ''b'')], PDict [(''id'', PStr ''c'')]] \<and>
   length (snd (search_yelp_businesses stub_directory nashville_criteria)) = 1"
proof -
  have h: "0 < max_results sixty_criteria" "(0::int) < 60"
    by (simp_all add: sixty_criteria_def)
  note t = search_bounded_and_stops
             [OF h, of stub_paged "PStr ''key''" stub_paged "PStr ''Nashville, TN''" PNone
                 "PInt 8046"]
  from t paged_search_run(1)
  have b: "int (length (take 60 stub_pool)) \<le> max_results sixty_criteria"
    by blast
  from h paged_search_run paged_client_run three_listing_run b show ?thesis
    by (intro conjI)
qed

lemma yelp_loop_requests:
  "\<forall>x \<in> set trace. map_of (fst x) ''radius'' = Some (PInt radius) \<Longrightarrow>
   \<forall>x \<in> set (snd (yelp_loop api p radius limit all_businesses offset trace)).
      map_of (fst x) ''radius'' = Some (PInt radius)"
proof (induction api p radius limit all_businesses offset trace rule: yelp_loop.induct)
  case (1 api p radius limit all_businesses offset trace)
  let ?req = "params_dict p radius limit offset"
  note eq = yelp_loop.simps[of api p radius limit all_businesses offset trace]
  have req: "map_of (fst (?req, out)) ''radius'' = Some (PInt radius)" for out :: http_outcome
    by (simp add: params_dict_def)
  show ?case
  proof (cases "int (length all_businesses) < max_results p")
    case False
    then show ?thesis using "1.prems" by (simp add: eq)
  next
    case lt: True
    show ?thesis
    proof (cases "api ?req")
      case (Raises e)
      then show ?thesis using lt "1.prems" req
        by (cases e) (auto simp: eq)
    next
      case (Json body)
      show ?thesis
      proof (cases "py_get body ''businesses'' (PList [])")
        case (Inl e)
        then show ?thesis using lt Json "1.prems" req by (auto simp: eq)
      next
        case (Inr page)
        show ?thesis
        proof (cases "truthy page")
          case False
          then show ?thesis using lt Json Inr "1.prems" req by (auto simp: eq)
        next
          case tr: True
          show ?thesis
          proof (cases "py_iter page")
            case (Inl e)
            then show ?thesis using lt Json Inr tr "1.prems" req by (auto simp: eq)
          next
            case items: (Inr items)
            show ?thesis
            proof (cases "int (length items) < limit")
              case True
              then show ?thesis using lt Json Inr tr items "1.prems" req by (auto simp: eq)
            next
              case False
              have pre: "\<forall>x \<in> set (trace @ [(?req, Json body)]). map_of (fst x) ''radius'' = Some (PInt radius)"
                using "1.prems" req by auto
              from "1.IH"[OF lt Json Inr _ items False pre] tr
              show ?thesis using lt Json Inr tr items False by (simp add: eq)
            qed
          qed
        qed
      qed
    qed
  qed
qed

lemma pow2_pos: "0 < pow2 k"
  by (simp add: pow2_def)

lemma round_half_even_nonneg: "0 \<le> x \<Longrightarrow> 0 \<le> round_half_even x"
  by (auto simp: round_half_even_def Let_def)

lemma fl_nonneg: "0 \<le> x \<Longrightarrow> 0 \<le> fl x"
proof -
  assume x: "0 \<le> x"
  show ?thesis
  proof (cases "x = 0")
    case True
    then show ?thesis by (simp add: fl_def)
  next
    case False
    with x have pos: "0 < x" by simp
    let ?k = "max (exponent \<bar>x\<bar> - 52) (- 1074)"
    have "0 \<le> \<bar>x\<bar> / pow2 ?k" using pow2_pos[of ?k] by simp
    then have "0 \<le> round_half_even (\<bar>x\<bar> / pow2 ?k)" by (rule round_half_even_nonneg)
    then have "0 \<le> sgn x * of_int (round_half_even (\<bar>x\<bar> / pow2 ?k)) * pow2 ?k"
      using pos pow2_pos[of ?k] by simp
    then show ?thesis using False by (simp add: fl_def Let_def)
  qed
qed

lemma round_half_even_bounds:
  "\<lfloor>x\<rfloor> \<le> round_half_even x \<and> round_half_even x \<le> \<lfloor>x\<rfloor> + 1"
  by (simp add: round_half_even_def Let_def)


lemma radius_meters_5: "radius_meters 5 = 8046"
  by code_simp

lemma py_round_5: "py_round (fmul 5 (fl (160934 / 100))) = 8047"
  by code_simp

text \<open>
  C8, as written, fails: the radius is not \<open>round(distance_miles * 1609.34)\<close>. At 5 miles
  the product is the double nearest to 8046.7; the request carries 8046, and rounding to
  the nearest integer would give 8047.
\<close>

theorem radius_not_rounded:
  "radius_meters 5 = 8046 \<and> py_round (fmul 5 (fl (160934 / 100))) = 8047 \<and>
   radius_meters 5 \<noteq> py_round (fmul 5 (fl (160934 / 100)))"
  using radius_meters_5 py_round_5 by simp

text \<open>
  C8, amended. Every request of \<open>search_yelp_businesses\<close> carries the radius
  \<open>int(distance_miles * 1609.34)\<close>, the product truncated toward zero: for a distance that
  is not negative, the largest integer not above the product, which is the rounded
  product or one less.
\<close>

theorem radius_truncates:
  "(\<forall>x \<in> set (snd (search_yelp_businesses api p)).
      map_of (fst x) ''radius'' = Some (PInt (radius_meters (distance_miles p)))) \<and>
   (0 \<le> miles \<longrightarrow>
      of_int (radius_meters miles) \<le> fmul miles (fl (160934 / 100)) \<and>
      fmul miles (fl (160934 / 100)) < of_int (radius_meters miles) + 1 \<and>
      radius_meters miles \<le> py_round (fmul miles (fl (160934 / 100))) \<and>
      py_round (fmul miles (fl (160934 / 100))) \<le> radius_meters miles + 1)"
proof (intro conjI impI)
  show "\<forall>x \<in> set (snd (search_yelp_businesses api p)).
      map_of (fst x) ''radius'' = Some (PInt (radius_meters (distance_miles p)))"
    using yelp_loop_requests[of "[]" "radius_meters (distance_miles p)" api p
            "min 50 (max_results p)" "[]" 0]
    by (simp add: search_yelp_businesses_def Let_def)
next
  assume m: "0 \<le> miles"
  let ?q = "fmul miles (fl (160934 / 100))"
  have "(0::rat) \<le> fl (160934 / 100)" by (rule fl_nonneg) simp
  with m have "0 \<le> miles * fl (160934 / 100)" by simp
  then have q: "0 \<le> ?q" unfolding fmul_def by (rule fl_nonneg)
  then have r: "radius_meters miles = \<lfloor>?q\<rfloor>" by (simp add: radius_meters_def py_int_def)
  show "of_int (radius_meters miles) \<le> ?q" by (simp add: r)
  show "?q < of_int (radius_meters miles) + 1"
    using floor_correct[of ?q] by (simp add: r)
  show "radius_meters miles \<le> py_round ?q"
    using round_half_even_bounds[of ?q] by (simp add: r py_round_def)
  show "py_round ?q \<le> radius_meters miles + 1"
    using round_half_even_bounds[of ?q] by (simp add: r py_round_def)
qed


theorem radius_truncates_witness:
  "(0::rat) \<le> 5 \<and> radius_meters 5 = 8046 \<and>
   rat_of_int (radius_meters 5) \<le> fmul 5 (fl (160934 / 100)) \<and>
   fmul 5 (fl (160934 / 100)) < rat_of_int (radius_meters 5) + 1 \<and>
   py_round (fmul 5 (fl (160934 / 100))) \<le> radius_meters 5 + 1"
  using radius_truncates
          [of "stub_directory"
              "nashville_criteria" 5]
        radius_meters_5
  by simp

section \<open>Properties of the cross-reference lookup\<close>

lemma cache_key_case_insensitive: "cache_key ascii_lower ''Cafe'' ''1 Main St'' = cache_key ascii_lower ''CAFE'' ''1 MAIN ST''"
  by code_simp


lemma lookup_hit:
  "google_cache st (cache_key lower n a) = Some v \<Longrightarrow> get_google_business_info lower places place st n a = (st, v)"
  by (simp add: get_google_business_info_def)

lemma cache_negative_props:
  "google_cache (fst (cache_negative key st)) = (google_cache st)(key \<mapsto> snd (cache_negative key st))"
  "upstream (fst (cache_negative key st)) = upstream st"
  "google_api_calls (fst (cache_negative key st)) = google_api_calls st"
  by (simp_all add: cache_negative_def)

lemma fetch_details_props:
  "google_cache (fst (fetch_details place key st pid)) = (google_cache st)(key \<mapsto> snd (fetch_details place key st pid))"
  "upstream (fst (fetch_details place key st pid)) = upstream st @ [PlaceDetails pid]"
  by (auto simp: fetch_details_def cache_negative_def Let_def split: sum.splits)

lemma no_candidate:
  assumes "\<not> (\<exists>c cs. rs = PList (PDict c # cs))"
  shows "(case py_index0 rs of
            Inl e \<Rightarrow> A
          | Inr candidate \<Rightarrow>
              (case py_get candidate ''place_id'' PNone of Inl e \<Rightarrow> A | Inr x \<Rightarrow> B x)) = A"
proof (cases rs rule: py_index0.cases)
  case (2 x xs)
  with assms show ?thesis by (cases x) auto
qed auto

lemma lookup_miss:
  assumes "google_cache st (cache_key lower n a) = None"
  shows "google_cache (fst (get_google_business_info lower places place st n a)) =
           (google_cache st)(cache_key lower n a \<mapsto> snd (get_google_business_info lower places place st n a))"
    and "upstream (fst (get_google_business_info lower places place st n a)) =
           upstream st @
           (case first_candidate (places (n @ '' '' @ a)) of
              None \<Rightarrow> [PlacesSearch (n @ '' '' @ a)]
            | Some pid \<Rightarrow> [PlacesSearch (n @ '' '' @ a), PlaceDetails pid])"
proof -
  show "google_cache (fst (get_google_business_info lower places place st n a)) =
           (google_cache st)(cache_key lower n a \<mapsto> snd (get_google_business_info lower places place st n a))"
    using assms
    by (auto simp: get_google_business_info_def Let_def cache_negative_props fetch_details_props
             split: sum.splits)
  show "upstream (fst (get_google_business_info lower places place st n a)) =
           upstream st @
           (case first_candidate (places (n @ '' '' @ a)) of
              None \<Rightarrow> [PlacesSearch (n @ '' '' @ a)]
            | Some pid \<Rightarrow> [PlacesSearch (n @ '' '' @ a), PlaceDetails pid])"
  proof (cases "places (n @ '' '' @ a)")
    case (Inl e)
    then show ?thesis using assms
      by (simp add: get_google_business_info_def Let_def cache_negative_props first_candidate_def)
  next
    case (Inr pr)
    show ?thesis
    proof (cases pr)
      case (PDict d)
      show ?thesis
      proof (cases "map_of d ''results''")
        case None
        then show ?thesis using assms Inr PDict
          by (simp add: get_google_business_info_def Let_def cache_negative_props first_candidate_def)
      next
        case (Some rs)
        show ?thesis
        proof (cases "\<exists>c cs. rs = PList (PDict c # cs)")
          case True
          then show ?thesis using assms Inr PDict Some
            by (auto simp: get_google_business_info_def Let_def cache_negative_props
                  fetch_details_props first_candidate_def and_then_def dict_get_def)
        next
          case False
          then have fc: "first_candidate (Inr (PDict d)) = None"
            using Some
            by (auto simp: first_candidate_def split: pyval.splits list.splits)
          show ?thesis using assms Inr PDict Some
            by (simp add: get_google_business_info_def Let_def cache_negative_props fc
                  and_then_def no_candidate[OF False])
        qed
      qed
    qed (use assms Inr in
          \<open>simp_all add: get_google_business_info_def Let_def cache_negative_props first_candidate_def\<close>)
  qed
qed


lemma lookup_caches:
  "google_cache (fst (get_google_business_info lower places place st n a)) (cache_key lower n a) =
     Some (snd (get_google_business_info lower places place st n a))"
proof (cases "google_cache st (cache_key lower n a)")
  case None
  from lookup_miss(1)[OF this] show ?thesis by simp
next
  case (Some v)
  then show ?thesis by (simp add: lookup_hit)
qed

lemma cache_persists:
  assumes "google_cache st k = Some v"
  shows "google_cache (fst (get_google_business_info lower places place st n a)) k = Some v"
proof (cases "google_cache st (cache_key lower n a)")
  case None
  with assms have "k \<noteq> cache_key lower n a" by auto
  with lookup_miss(1)[OF None] assms show ?thesis by simp
next
  case (Some w)
  with assms show ?thesis by (simp add: lookup_hit)
qed

lemma lookups_persist:
  "google_cache st k = Some v \<Longrightarrow> google_cache (lookups lower places place st nas) k = Some v"
  by (induction nas arbitrary: st) (simp_all add: cache_persists)

text \<open>
  C2, amended. A lookup that misses the cache issues the place search and, only when
  the search answers with a non-empty candidate list headed by an object, the place
  detail call: two upstream calls when there is a candidate, one when there is none or
  the search fails. Whatever it returns is cached under the normalized key, \<open>None\<close>
  included, so every later lookup of a pair with the same key, after any other lookups,
  leaves the finder unchanged (no upstream call) and returns the same value. The key is
  normalized by \<open>str.lower()\<close>, the parameter \<open>lower\<close>: the statement holds for every
  lowering function.
\<close>

theorem lookup_calls_and_cache:
  assumes "cache_key lower name_again address_again = cache_key lower n a"
  shows
    "(google_cache st (cache_key lower n a) = None \<longrightarrow>
        upstream (fst (get_google_business_info lower places place st n a)) =
          upstream st @
          (case first_candidate (places (n @ '' '' @ a)) of
             None \<Rightarrow> [PlacesSearch (n @ '' '' @ a)]
           | Some pid \<Rightarrow> [PlacesSearch (n @ '' '' @ a), PlaceDetails pid])) \<and>
     get_google_business_info lower places_again place_again
        (lookups lower places_mid place_mid (fst (get_google_business_info lower places place st n a)) others) name_again address_again =
       (lookups lower places_mid place_mid (fst (get_google_business_info lower places place st n a)) others,
        snd (get_google_business_info lower places place st n a))"
proof (intro conjI impI)
  assume "google_cache st (cache_key lower n a) = None"
  from lookup_miss(2)[OF this]
  show "upstream (fst (get_google_business_info lower places place st n a)) =
          upstream st @
          (case first_candidate (places (n @ '' '' @ a)) of
             None \<Rightarrow> [PlacesSearch (n @ '' '' @ a)]
           | Some pid \<Rightarrow> [PlacesSearch (n @ '' '' @ a), PlaceDetails pid])" .
next
  let ?st1 = "fst (get_google_business_info lower places place st n a)"
  let ?r = "snd (get_google_business_info lower places place st n a)"
  have "google_cache ?st1 (cache_key lower n a) = Some ?r" by (rule lookup_caches)
  then have "google_cache (lookups lower places_mid place_mid ?st1 others) (cache_key lower name_again address_again) = Some ?r"
    by (simp add: lookups_persist assms)
  then show "get_google_business_info lower places_again place_again (lookups lower places_mid place_mid ?st1 others) name_again address_again =
       (lookups lower places_mid place_mid ?st1 others, ?r)"
    by (rule lookup_hit)
qed

text \<open>
  C2, as written, fails: a miss does not always cost two upstream calls. When the place
  search finds no candidate there is no identifier to fetch details for, and the miss
  costs the one search call.
\<close>

theorem lookup_no_match_one_call:
  "google_cache new_finder (cache_key ascii_lower ''Cafe'' ''1 Main St'') = None \<and>
   upstream (fst (get_google_business_info ascii_lower stub_places_no_match stub_place_details new_finder ''Cafe'' ''1 Main St''))
     = [PlacesSearch ''Cafe 1 Main St''] \<and>
   google_api_calls (fst (get_google_business_info ascii_lower stub_places_no_match stub_place_details new_finder ''Cafe'' ''1 Main St'')) = 1 \<and>
   snd (get_google_business_info ascii_lower stub_places_no_match stub_place_details new_finder ''Cafe'' ''1 Main St'') = PNone"
  by (simp add: get_google_business_info_def cache_negative_def Let_def)

lemma stub_lookup:
  "get_google_business_info ascii_lower stub_places_found stub_place_details new_finder ''Cafe'' ''1 Main St'' =
     (\<lparr>google_cache = [cache_key ascii_lower ''Cafe'' ''1 Main St'' \<mapsto>
                         PDict [(''formatted_phone_number'', PStr ''615-555-0100'')]],
       google_api_calls = 2,
       upstream = [PlacesSearch ''Cafe 1 Main St'', PlaceDetails (PStr ''p1'')]\<rparr>,
      PDict [(''formatted_phone_number'', PStr ''615-555-0100'')])"
  by (simp add: get_google_business_info_def fetch_details_def cache_negative_def Let_def and_then_def)

theorem lookup_calls_and_cache_witness:
  "cache_key ascii_lower ''CAFE'' ''1 MAIN ST'' = cache_key ascii_lower ''Cafe'' ''1 Main St'' \<and>
   google_cache new_finder (cache_key ascii_lower ''Cafe'' ''1 Main St'') = None \<and>
   upstream (fst (get_google_business_info ascii_lower stub_places_found stub_place_details new_finder ''Cafe'' ''1 Main St''))
     = [PlacesSearch ''Cafe 1 Main St'', PlaceDetails (PStr ''p1'')] \<and>
   get_google_business_info ascii_lower stub_places_found stub_place_details
      (lookups ascii_lower stub_places_found stub_place_details (fst (get_google_business_info ascii_lower stub_places_found stub_place_details new_finder ''Cafe'' ''1 Main St''))
         [(''Deli'', ''2 Oak Ave'')]) ''CAFE'' ''1 MAIN ST'' =
     (lookups ascii_lower stub_places_found stub_place_details (fst (get_google_business_info ascii_lower stub_places_found stub_place_details new_finder ''Cafe'' ''1 Main St''))
         [(''Deli'', ''2 Oak Ave'')],
      PDict [(''formatted_phone_number'', PStr ''615-555-0100'')])"
proof -
  note t = lookup_calls_and_cache
          [OF cache_key_case_insensitive[symmetric],
           where st = "new_finder"
             and places = "stub_places_found" and place = "stub_place_details"
             and places_mid = "stub_places_found" and place_mid = "stub_place_details"
             and places_again = "stub_places_found" and place_again = "stub_place_details"
             and others = "[(''Deli'', ''2 Oak Ave'')]"]
  have k: "cache_key ascii_lower ''CAFE'' ''1 MAIN ST'' = cache_key ascii_lower ''Cafe'' ''1 Main St''"
    by (rule cache_key_case_insensitive[symmetric])
  have e: "google_cache new_finder (cache_key ascii_lower ''Cafe'' ''1 Main St'') = None"
    by simp
  have u: "upstream (fst (get_google_business_info ascii_lower stub_places_found stub_place_details new_finder ''Cafe'' ''1 Main St''))
     = [PlacesSearch ''Cafe 1 Main St'', PlaceDetails (PStr ''p1'')]"
    by (simp only: stub_lookup fst_conv finder.select_convs)
  have g: "get_google_business_info ascii_lower stub_places_found stub_place_details
      (lookups ascii_lower stub_places_found stub_place_details (fst (get_google_business_info ascii_lower stub_places_found stub_place_details new_finder ''Cafe'' ''1 Main St''))
         [(''Deli'', ''2 Oak Ave'')]) ''CAFE'' ''1 MAIN ST'' =
     (lookups ascii_lower stub_places_found stub_place_details (fst (get_google_business_info ascii_lower stub_places_found stub_place_details new_finder ''Cafe'' ''1 Main St''))
         [(''Deli'', ''2 Oak Ave'')],
      PDict [(''formatted_phone_number'', PStr ''615-555-0100'')])"
    using t[THEN conjunct2] by (simp only: stub_lookup snd_conv)
  from k e u g show ?thesis by (intro conjI)
qed

section \<open>Properties of address verification\<close>

lemma failure_result_lookup:
  "map_of (failure_result status err) ''verified'' = Some (PBool False)"
  "map_of (failure_result status err) ''status'' = Some (PStr status)"
  "map_of (failure_result status err) ''confidence'' = Some (PFloat 0)"
  "map_of (failure_result status err) ''error'' = Some err"
  by (simp_all add: failure_result_def verification_result_def)

lemma verify_address_failure:
  "verify_address_try (service street cty state zip_code) = Inl e \<Longrightarrow>
   \<exists>msg. msg \<noteq> [] \<and> verify_address service street cty state zip_code = failure_result ''error'' (PStr msg)"
  by (cases e) (auto simp: verify_address_def)

lemma py_index0_Inr:
  "py_index0 v = Inr x \<Longrightarrow> (\<exists>xs. v = PList (x # xs)) \<or> (\<exists>c cs. v = PStr (c # cs) \<and> x = PStr [c])"
  by (cases v rule: py_index0.cases) auto

lemma py_get_Inr: "py_get v k d = Inr x \<Longrightarrow> \<exists>dd. v = PDict dd \<and> x = dict_get dd k d"
  by (cases v) (auto simp: dict_get_def)

lemma not_deliverable:
  assumes "match_code outcome \<noteq> Some (PStr ''Y'')"
    and "match_code outcome \<noteq> Some (PStr ''S'')"
    and "match_code outcome \<noteq> Some (PStr ''D'')"
  shows "(\<exists>e. verify_address_try outcome = Inl e) \<or>
         (\<exists>err. verify_address_try outcome = Inr (failure_result ''invalid'' err))"
proof (cases outcome)
  case (Raises e)
  then show ?thesis by (simp add: verify_address_try_def)
next
  case (Json results)
  show ?thesis
  proof (cases "truthy results")
    case False
    then show ?thesis using Json by (auto simp: verify_address_try_def)
  next
    case True
    show ?thesis
    proof (cases "py_index0 results")
      case (Inl e)
      then show ?thesis using Json True by (simp add: verify_address_try_def and_then_def)
    next
      case (Inr result)
      show ?thesis
      proof (cases "py_get result ''analysis'' (PDict [])")
        case (Inl e)
        then show ?thesis using Json True Inr by (simp add: verify_address_try_def and_then_def)
      next
        case an: (Inr analysis)
        from py_get_Inr[OF an] obtain r where r: "result = PDict r"
          "analysis = dict_get r ''analysis'' (PDict [])" by blast
        from py_index0_Inr[OF Inr] r(1) obtain rest where res: "results = PList (PDict r # rest)"
          by auto
        show ?thesis
        proof (cases "py_get analysis ''dpv_match_code'' PNone")
          case (Inl e)
          then show ?thesis using Json True Inr an
            by (simp add: verify_address_try_def and_then_def)
        next
          case code: (Inr code)
          from py_get_Inr[OF code] obtain a where a: "analysis = PDict a"
            "code = dict_get a ''dpv_match_code'' PNone" by blast
          have "code \<noteq> PStr ''Y'' \<and> code \<noteq> PStr ''S'' \<and> code \<noteq> PStr ''D''"
            using assms Json res r(2) a
            by (auto simp: match_code_def dict_get_def split: option.splits)
          then show ?thesis using Json True Inr an code
            by (auto simp: verify_address_try_def and_then_def a(1))
        qed
      qed
    qed
  qed
qed

lemma deliverable_Y:
  assumes "outcome = Json (PList (PDict r # rest))"
    and "map_of r ''analysis'' = Some (PDict an)"
    and "map_of an ''dpv_match_code'' = Some (PStr ''Y'')"
    and "\<not> truthy (dict_get an ''dpv_vacant'' (PBool False))"
    and "\<not> truthy (dict_get an ''dpv_cmra'' (PBool False))"
    and "is_dict (dict_get r ''components'' (PDict []))"
  shows "\<exists>line cty state zip_code.
           verify_address_try outcome =
             Inr (verification_result True ''verified'' 1 line cty state zip_code PNone)"
proof -
  from assms(6) obtain comp where comp: "dict_get r ''components'' (PDict []) = PDict comp"
    by (cases "dict_get r ''components'' (PDict [])") auto
  have cc: "calculate_confidence (PDict r) = Inr 1"
    using assms(2-5) by (simp add: calculate_confidence_def and_then_def dict_get_def)
  show ?thesis
    using assms(1-3) cc comp
    by (auto simp: verify_address_try_def and_then_def dict_get_def)
qed

text \<open>
  What holds of the match codes. When the first candidate of the response carries match
  code \<open>Y\<close>, the two flags \<open>dpv_vacant\<close> and \<open>dpv_cmra\<close> are absent or falsy as Python
  tests them, and its components block is an object (or absent), \<open>verify_address\<close>
  returns verified, confidence 1.0, status "verified". When the response has no first
  candidate with a match code in \<open>{Y, S, D}\<close> (any other code, no results, a failed or
  malformed exchange), it returns not verified, confidence 0.0.
\<close>

lemma verify_address_match_codes:
  "(service street cty state zip_code = Json (PList (PDict r # rest)) \<and>
    map_of r ''analysis'' = Some (PDict an) \<and>
    map_of an ''dpv_match_code'' = Some (PStr ''Y'') \<and>
    \<not> truthy (dict_get an ''dpv_vacant'' (PBool False)) \<and>
    \<not> truthy (dict_get an ''dpv_cmra'' (PBool False)) \<and>
    is_dict (dict_get r ''components'' (PDict []))
    \<longrightarrow>
      map_of (verify_address service street cty state zip_code) ''verified'' = Some (PBool True) \<and>
      map_of (verify_address service street cty state zip_code) ''confidence'' = Some (PFloat 1) \<and>
      map_of (verify_address service street cty state zip_code) ''status'' = Some (PStr ''verified'')) \<and>
   (match_code (service street cty state zip_code) \<noteq> Some (PStr ''Y'') \<and>
    match_code (service street cty state zip_code) \<noteq> Some (PStr ''S'') \<and>
    match_code (service street cty state zip_code) \<noteq> Some (PStr ''D'')
    \<longrightarrow>
      map_of (verify_address service street cty state zip_code) ''verified'' = Some (PBool False) \<and>
      map_of (verify_address service street cty state zip_code) ''confidence'' = Some (PFloat 0))"
proof (intro conjI impI)
  assume h: "service street cty state zip_code = Json (PList (PDict r # rest)) \<and>
    map_of r ''analysis'' = Some (PDict an) \<and>
    map_of an ''dpv_match_code'' = Some (PStr ''Y'') \<and>
    \<not> truthy (dict_get an ''dpv_vacant'' (PBool False)) \<and>
    \<not> truthy (dict_get an ''dpv_cmra'' (PBool False)) \<and>
    is_dict (dict_get r ''components'' (PDict []))"
  then obtain line c s z where
    "verify_address_try (service street cty state zip_code) =
       Inr (verification_result True ''verified'' 1 line c s z PNone)"
    using deliverable_Y[of "service street cty state zip_code" r rest an] by blast
  then have v: "verify_address service street cty state zip_code =
       verification_result True ''verified'' 1 line c s z PNone"
    by (simp add: verify_address_def)
  show "map_of (verify_address service street cty state zip_code) ''verified'' = Some (PBool True)"
    by (simp add: v verification_result_def)
  show "map_of (verify_address service street cty state zip_code) ''confidence'' = Some (PFloat 1)"
    by (simp add: v verification_result_def)
  show "map_of (verify_address service street cty state zip_code) ''status'' = Some (PStr ''verified'')"
    by (simp add: v verification_result_def)
next
  assume h: "match_code (service street cty state zip_code) \<noteq> Some (PStr ''Y'') \<and>
    match_code (service street cty state zip_code) \<noteq> Some (PStr ''S'') \<and>
    match_code (service street cty state zip_code) \<noteq> Some (PStr ''D'')"
  then have "(\<exists>e. verify_address_try (service street cty state zip_code) = Inl e) \<or>
         (\<exists>err. verify_address_try (service street cty state zip_code) = Inr (failure_result ''invalid'' err))"
    using not_deliverable by blast
  then have "\<exists>status err. verify_address service street cty state zip_code = failure_result status err"
    using verify_address_failure[of service street cty state zip_code]
    by (fastforce simp: verify_address_def)
  then obtain status err where
    f: "verify_address service street cty state zip_code = failure_result status err" by blast
  show "map_of (verify_address service street cty state zip_code) ''verified'' = Some (PBool False)"
    by (simp add: f failure_result_lookup)
  show "map_of (verify_address service street cty state zip_code) ''confidence'' = Some (PFloat 0)"
    by (simp add: f failure_result_lookup)
qed

lemma verify_address_match_codes_run:
  "map_of (verify_address stub_smarty_deliverable (PStr ''1 Main St'') (PStr ''Nashville'') (PStr ''TN'') (PStr ''37201'')) ''verified'' = Some (PBool True) \<and>
   map_of (verify_address stub_smarty_deliverable (PStr ''1 Main St'') (PStr ''Nashville'') (PStr ''TN'') (PStr ''37201'')) ''confidence'' = Some (PFloat 1) \<and>
   map_of (verify_address stub_smarty_deliverable (PStr ''1 Main St'') (PStr ''Nashville'') (PStr ''TN'') (PStr ''37201'')) ''status'' = Some (PStr ''verified'') \<and>
   match_code (stub_smarty_undeliverable (PStr ''1 Main St'') (PStr ''Nashville'') (PStr ''TN'') (PStr ''37201'')) = Some (PStr ''N'') \<and>
   map_of (verify_address stub_smarty_undeliverable (PStr ''1 Main St'') (PStr ''Nashville'') (PStr ''TN'') (PStr ''37201'')) ''verified'' = Some (PBool False) \<and>
   map_of (verify_address stub_smarty_undeliverable (PStr ''1 Main St'') (PStr ''Nashville'') (PStr ''TN'') (PStr ''37201'')) ''confidence'' = Some (PFloat 0)"
proof -
  have y: "map_of (verify_address stub_smarty_deliverable (PStr ''1 Main St'') (PStr ''Nashville'') (PStr ''TN'') (PStr ''37201'')) ''verified'' = Some (PBool True) \<and>
   map_of (verify_address stub_smarty_deliverable (PStr ''1 Main St'') (PStr ''Nashville'') (PStr ''TN'') (PStr ''37201'')) ''confidence'' = Some (PFloat 1) \<and>
   map_of (verify_address stub_smarty_deliverable (PStr ''1 Main St'') (PStr ''Nashville'') (PStr ''TN'') (PStr ''37201'')) ''status'' = Some (PStr ''verified'')"
    using verify_address_match_codes
            [of "stub_smarty_deliverable" "PStr ''1 Main St''" "PStr ''Nashville''" "PStr ''TN''" "PStr ''37201''"
                "[(''delivery_line_1'', PStr ''1 Main St''), (''components'', PDict [(''city_name'', PStr ''Nashville'')]), (''analysis'', PDict [(''dpv_match_code'', PStr ''Y'')])]"
                "[]" "[(''dpv_match_code'', PStr ''Y'')]", THEN conjunct1]
    by (simp add: dict_get_def)
  have m: "match_code (stub_smarty_undeliverable (PStr ''1 Main St'') (PStr ''Nashville'') (PStr ''TN'') (PStr ''37201'')) = Some (PStr ''N'')"
    by (simp add: match_code_def)
  have n: "map_of (verify_address stub_smarty_undeliverable (PStr ''1 Main St'') (PStr ''Nashville'') (PStr ''TN'') (PStr ''37201'')) ''verified'' = Some (PBool False) \<and>
   map_of (verify_address stub_smarty_undeliverable (PStr ''1 Main St'') (PStr ''Nashville'') (PStr ''TN'') (PStr ''37201'')) ''confidence'' = Some (PFloat 0)"
    using verify_address_match_codes[of "stub_smarty_undeliverable" "PStr ''1 Main St''" "PStr ''Nashville''" "PStr ''TN''" "PStr ''37201''", THEN conjunct2] m
    by simp
  from y m n show ?thesis by blast
qed

lemma reduced_confidence:
  "fmul (fmul 1 (fl (7 / 10))) (fl (9 / 10)) = 5674535530486825 / 9007199254740992"
  by code_simp

text \<open>
  C6. The flags are tested by truth value (\<open>if analysis.get('dpv_vacant', False)\<close>),
  so a flag stated in the \<open>Y\<close>/\<open>N\<close> codes of the analysis block is set whatever it
  says: \<open>'N'\<close> is a non-empty string and so true. A response with match code \<open>Y\<close> that
  states both flags as \<open>N\<close> (not vacant, not a mail-receiving agency) is verified with
  status "verified", but its confidence is taken through both reductions,
  \<open>1.0 * 0.7 * 0.9\<close>, which is the double \<open>5674535530486825 / 2^53\<close> (printed 0.63), not
  1.0.
\<close>

theorem verify_address_flags_stated_N:
  "map_of (verify_address stub_smarty_flags_N (PStr ''1 Main St'') (PStr ''Nashville'') (PStr ''TN'')
             (PStr ''37201'')) ''verified'' = Some (PBool True) \<and>
   map_of (verify_address stub_smarty_flags_N (PStr ''1 Main St'') (PStr ''Nashville'') (PStr ''TN'')
             (PStr ''37201'')) ''status'' = Some (PStr ''verified'') \<and>
   map_of (verify_address stub_smarty_flags_N (PStr ''1 Main St'') (PStr ''Nashville'') (PStr ''TN'')
             (PStr ''37201'')) ''confidence''
     = Some (PFloat (5674535530486825 / 9007199254740992)) \<and>
   map_of (verify_address stub_smarty_flags_N (PStr ''1 Main St'') (PStr ''Nashville'') (PStr ''TN'')
             (PStr ''37201'')) ''confidence'' \<noteq> Some (PFloat 1)"
  by (simp add: verify_address_def verify_address_try_def calculate_confidence_def and_then_def
        verification_result_def reduced_confidence)

text \<open>
  C7. \<open>verify_address\<close> always returns a result. A failing exchange makes the \<open>try\<close> body
  raise, and whenever the body raises, for a transport error or anything else, the
  result has status "error", confidence 0.0, verified false and a non-empty error text.
\<close>

theorem verify_address_never_raises:
  "(\<forall>e. service street cty state zip_code = Raises e \<longrightarrow>
        verify_address_try (service street cty state zip_code) = Inl e) \<and>
   (\<forall>e. verify_address_try (service street cty state zip_code) = Inl e \<longrightarrow>
        map_of (verify_address service street cty state zip_code) ''status'' = Some (PStr ''error'') \<and>
        map_of (verify_address service street cty state zip_code) ''confidence'' = Some (PFloat 0) \<and>
        map_of (verify_address service street cty state zip_code) ''verified'' = Some (PBool False) \<and>
        (\<exists>msg. msg \<noteq> [] \<and>
           map_of (verify_address service street cty state zip_code) ''error'' = Some (PStr msg)))"
proof (intro conjI allI impI)
  fix e assume "service street cty state zip_code = Raises e"
  then show "verify_address_try (service street cty state zip_code) = Inl e"
    by (simp add: verify_address_try_def)
next
  fix e assume h: "verify_address_try (service street cty state zip_code) = Inl e"
  from verify_address_failure[of service street cty state zip_code e] h obtain msg where
    m: "msg \<noteq> []" "verify_address service street cty state zip_code = failure_result ''error'' (PStr msg)"
    by blast
  show "map_of (verify_address service street cty state zip_code) ''status'' = Some (PStr ''error'')"
    by (simp add: m failure_result_lookup)
  show "map_of (verify_address service street cty state zip_code) ''confidence'' = Some (PFloat 0)"
    by (simp add: m failure_result_lookup)
  show "map_of (verify_address service street cty state zip_code) ''verified'' = Some (PBool False)"
    by (simp add: m failure_result_lookup)
  show "\<exists>msg. msg \<noteq> [] \<and>
           map_of (verify_address service street cty state zip_code) ''error'' = Some (PStr msg)"
    using m by (auto simp: failure_result_lookup)
qed

theorem verify_address_never_raises_witness:
  "stub_smarty_timeout (PStr ''1 Main St'') (PStr ''Nashville'') (PStr ''TN'') (PStr ''37201'') = Raises (RequestException ''timed out'') \<and>
   verify_address_try (stub_smarty_timeout (PStr ''1 Main St'') (PStr ''Nashville'') (PStr ''TN'') (PStr ''37201'')) = Inl (RequestException ''timed out'') \<and>
   map_of (verify_address stub_smarty_timeout (PStr ''1 Main St'') (PStr ''Nashville'') (PStr ''TN'') (PStr ''37201'')) ''status'' = Some (PStr ''error'') \<and>
   map_of (verify_address stub_smarty_timeout (PStr ''1 Main St'') (PStr ''Nashville'') (PStr ''TN'') (PStr ''37201'')) ''confidence'' = Some (PFloat 0) \<and>
   map_of (verify_address stub_smarty_timeout (PStr ''1 Main St'') (PStr ''Nashville'') (PStr ''TN'') (PStr ''37201'')) ''error'' = Some (PStr ''API Error: timed out'')"
  using verify_address_never_raises[of "stub_smarty_timeout" "PStr ''1 Main St''" "PStr ''Nashville''" "PStr ''TN''" "PStr ''37201''"]
  by (simp add: verify_address_try_def verify_address_def failure_result_def
                verification_result_def)

section \<open>Properties of the address verification of a listing\<close>

lemma verify_address_try_shape:
  assumes "verify_address_try outcome = Inr r"
  shows "\<exists>v s c a ci st z e. r = verification_result v s c a ci st z e"
proof (cases outcome)
  case (Raises e)
  with assms show ?thesis by (simp add: verify_address_try_def)
next
  case (Json results)
  show ?thesis
  proof (cases "truthy results")
    case False
    with assms Json have "r = failure_result ''invalid'' (PStr ''No results returned'')"
      by (simp add: verify_address_try_def)
    then show ?thesis unfolding failure_result_def by blast
  next
    case True
    with assms Json show ?thesis
      unfolding verify_address_try_def and_then_def failure_result_def
      by (simp split: sum.splits if_splits) blast+
  qed
qed

lemma verify_address_shape:
  "\<exists>v s c a ci st z e. verify_address service street cty state zip_code =
      verification_result v s c a ci st z e"
proof (cases "verify_address_try (service street cty state zip_code)")
  case (Inl e)
  from verify_address_failure[of service street cty state zip_code e] Inl
  show ?thesis unfolding failure_result_def by blast
next
  case (Inr r)
  with verify_address_try_shape[OF Inr] show ?thesis by (simp add: verify_address_def)
qed

lemma store_verification_frame:
  "\<exists>d'. store_verification (verification_result v s c a ci st z e) (PDict d) = Inr (PDict d') \<and>
        map_of d' ''address_verified'' = Some (PBool v) \<and>
        (\<forall>k. k \<notin> set verification_keys \<longrightarrow> map_of d' k = map_of d k)"
  by (simp add: store_verification_def verification_result_def and_then_def
        verification_keys_def map_of_dict_set)


lemma complete_address_dict:
  assumes "verify_business_address (Some service) (PDict d) = Inr b'"
  shows "is_dict (dict_get d ''location'' (PDict []))"
  using assms
  by (cases "dict_get d ''location'' (PDict [])")
     (auto simp: and_then_def dict_get_def split: option.splits)

lemma verify_business_address_frame:
  assumes "verify_business_address verifier (PDict d) = Inr b'"
  shows "\<exists>d'. b' = PDict d' \<and> (\<forall>k. k \<notin> set verification_keys \<longrightarrow> map_of d' k = map_of d k)"
proof (cases verifier)
  case None
  with assms show ?thesis by auto
next
  case (Some service)
  from complete_address_dict[OF assms[unfolded Some]] obtain l where
    l: "dict_get d ''location'' (PDict []) = PDict l"
    by (cases "dict_get d ''location'' (PDict [])") auto
  let ?street = "dict_get l ''address1'' (PStr [])"
  let ?cty = "dict_get l ''city'' (PStr [])"
  let ?state = "dict_get l ''state'' (PStr [])"
  let ?zip = "dict_get l ''zip_code'' (PStr [])"
  show ?thesis
  proof (cases "truthy ?street \<and> truthy ?cty \<and> truthy ?state \<and> truthy ?zip")
    case False
    with assms Some l have "b' = PDict d"
      by (auto simp: and_then_def dict_get_def split: option.splits)
    then show ?thesis by simp
  next
    case True
    obtain v s c a ci st z e where
      r: "verify_address service ?street ?cty ?state ?zip = verification_result v s c a ci st z e"
      using verify_address_shape[of service ?street ?cty ?state ?zip] by blast
    from store_verification_frame[of v s c a ci st z e d] obtain d' where
      d': "store_verification (verification_result v s c a ci st z e) (PDict d) = Inr (PDict d')"
          "\<forall>k. k \<notin> set verification_keys \<longrightarrow> map_of d' k = map_of d k"
      by blast
    have "verify_business_address (Some service) (PDict d) = Inr (PDict d')"
      using True l r d'(1) by (simp add: and_then_def dict_get_def[symmetric])
    with assms Some d'(2) show ?thesis by simp
  qed
qed



lemma verify_business_address_total:
  assumes "is_dict (dict_get d ''location'' (PDict []))"
  shows "\<exists>b'. verify_business_address verifier (PDict d) = Inr b'"
proof (cases verifier)
  case None
  then show ?thesis by simp
next
  case (Some service)
  from assms obtain l where l: "dict_get d ''location'' (PDict []) = PDict l"
    by (cases "dict_get d ''location'' (PDict [])") auto
  let ?street = "dict_get l ''address1'' (PStr [])"
  let ?cty = "dict_get l ''city'' (PStr [])"
  let ?state = "dict_get l ''state'' (PStr [])"
  let ?zip = "dict_get l ''zip_code'' (PStr [])"
  obtain v s c a ci st z e where
    r: "verify_address service ?street ?cty ?state ?zip = verification_result v s c a ci st z e"
    using verify_address_shape[of service ?street ?cty ?state ?zip] by blast
  from store_verification_frame[of v s c a ci st z e d] obtain d' where
    d': "store_verification (verification_result v s c a ci st z e) (PDict d) = Inr (PDict d')"
    by blast
  show ?thesis
    using Some l r d' by (simp add: and_then_def dict_get_def[symmetric])
qed

















section \<open>Properties of the result sink\<close>

lemma new_business_Inr:
  assumes "is_dict (dict_get d ''location'' (PDict []))"
  shows "\<exists>row. new_business bt (PDict d) = Inr row \<and>
               map_of row ''yelp_id'' = Some (dict_get d ''id'' PNone) \<and>
               map_of row ''name'' = Some (dict_get d ''name'' PNone)"
proof -
  from assms obtain l where l: "dict_get d ''location'' (PDict []) = PDict l"
    by (cases "dict_get d ''location'' (PDict [])") auto
  show ?thesis
    by (simp add: new_business_def and_then_def dict_get_def[symmetric] l)
qed

lemma new_business_Inl:
  assumes "\<not> is_dict (dict_get d ''location'' (PDict []))"
  shows "\<exists>e. new_business bt (PDict d) = Inl e"
  using assms
  by (cases "dict_get d ''location'' (PDict [])")
     (simp_all add: new_business_def and_then_def dict_get_def[symmetric])

lemma frame_fields:
  assumes "\<forall>k. k \<notin> set verification_keys \<longrightarrow> map_of d' k = map_of d k"
  shows "dict_get d' ''location'' x = dict_get d ''location'' x"
    and "dict_get d' ''id'' x = dict_get d ''id'' x"
    and "dict_get d' ''name'' x = dict_get d ''name'' x"
  using assms by (simp_all add: dict_get_def verification_keys_def)

text \<open>What the pre-insert verification step leaves: a listing with the same identity.\<close>

lemma pre_insert:
  assumes "(if c then verify_business_address verifier (PDict d) else Inr (PDict d)) = Inr b'"
  shows "\<exists>d'. b' = PDict d' \<and> dict_get d' ''location'' (PDict []) = dict_get d ''location'' (PDict []) \<and>
         dict_get d' ''id'' PNone = dict_get d ''id'' PNone \<and>
         dict_get d' ''name'' PNone = dict_get d ''name'' PNone"
proof (cases c)
  case True
  with assms have "verify_business_address verifier (PDict d) = Inr b'" by simp
  from verify_business_address_frame[OF this] obtain d' where
    "b' = PDict d'" "\<forall>k. k \<notin> set verification_keys \<longrightarrow> map_of d' k = map_of d k" by blast
  then show ?thesis using frame_fields[of d' d] by auto
next
  case False
  with assms show ?thesis by auto
qed

lemma ingest_one_new:
  assumes "find_by_yelp_id rows (dict_get d ''id'' PNone) = None"
  shows "if storable d
         then \<exists>row. ingest_one verifier bt rows (PDict d) = Inr (rows @ [row], row) \<and>
                     map_of row ''yelp_id'' = Some (dict_get d ''id'' PNone)
         else \<exists>e. ingest_one verifier bt rows (PDict d) = Inl e"
proof -
  let ?pre = "if map_of d ''address_verified'' = None
              then verify_business_address verifier (PDict d) else Inr (PDict d)"
  have io: "ingest_one verifier bt rows (PDict d) =
        and_then ?pre (\<lambda>business.
          and_then (new_business bt business) (\<lambda>row.
          and_then (commit rows row) (\<lambda>rows'. Inr (rows', row))))"
    using assms by simp
  show ?thesis
  proof (cases "is_dict (dict_get d ''location'' (PDict []))")
    case loc: True
    from verify_business_address_total[OF loc, of verifier]
    obtain b' where b': "?pre = Inr b'" by (cases "map_of d ''address_verified'' = None") auto
    from pre_insert[OF b'] obtain d' where d': "b' = PDict d'"
      "dict_get d' ''location'' (PDict []) = dict_get d ''location'' (PDict [])"
      "dict_get d' ''id'' PNone = dict_get d ''id'' PNone"
      "dict_get d' ''name'' PNone = dict_get d ''name'' PNone" by blast
    from new_business_Inr[of d' bt] loc d'(2) obtain row where row:
      "new_business bt (PDict d') = Inr row"
      "map_of row ''yelp_id'' = Some (dict_get d' ''id'' PNone)"
      "map_of row ''name'' = Some (dict_get d' ''name'' PNone)" by auto
    have step: "ingest_one verifier bt rows (PDict d) =
                  and_then (commit rows row) (\<lambda>rows'. Inr (rows', row))"
      unfolding io b' d'(1) by (simp add: and_then_def row(1))
    show ?thesis
      unfolding step using loc row(2,3) d'(3,4)
      by (auto simp: and_then_def commit_def storable_def)
  next
    case noloc: False
    then have ns: "\<not> storable d" by (simp add: storable_def)
    show ?thesis
    proof (cases ?pre)
      case (Inl e)
      then show ?thesis unfolding io using ns by (simp add: and_then_def)
    next
      case (Inr b')
      from pre_insert[OF Inr] obtain d' where d': "b' = PDict d'"
        "dict_get d' ''location'' (PDict []) = dict_get d ''location'' (PDict [])" by blast
      from new_business_Inl[of d' bt] noloc d'(2) obtain e where
        "new_business bt (PDict d') = Inl e" by auto
      then show ?thesis unfolding io using ns Inr d'(1) by (simp add: and_then_def)
    qed
  qed
qed

lemma find_app:
  "find P (xs @ ys) = (case find P xs of None \<Rightarrow> find P ys | Some x \<Rightarrow> Some x)"
  by (induction xs) auto

lemma known_append: "known rows b \<Longrightarrow> known (rows @ new) b"
  by (cases b) (auto simp: known_def find_by_yelp_id_def find_app split: option.splits)

lemma ingest_one_known:
  "known rows b \<Longrightarrow> \<exists>row. ingest_one verifier bt rows b = Inr (rows, row)"
  by (cases b) (auto simp: known_def)

lemma ingest_one_Inr:
  assumes "ingest_one verifier bt rows b = Inr (rows', row)"
  shows "known rows' b \<and> (rows' = rows \<or> rows' = rows @ [row])"
proof -
  from assms obtain d where b: "b = PDict d" by (cases b) auto
  show ?thesis
  proof (cases "find_by_yelp_id rows (dict_get d ''id'' PNone)")
    case (Some ex)
    with assms b show ?thesis by (auto simp: known_def)
  next
    case None
    from ingest_one_new[OF None, of verifier bt] assms b
    have "rows' = rows @ [row]" "map_of row ''yelp_id'' = Some (dict_get d ''id'' PNone)"
      by (auto split: if_splits)
    then show ?thesis using b
      by (auto simp: known_def find_by_yelp_id_def find_app split: option.splits)
  qed
qed

lemma ingest_one_Inl:
  assumes "ingest_one verifier bt rows b = Inl e"
  shows "\<exists>e'. ingest_one verifier' bt' rows b = Inl e'"
proof (cases b)
  case (PDict d)
  show ?thesis
  proof (cases "find_by_yelp_id rows (dict_get d ''id'' PNone)")
    case (Some ex)
    with assms PDict show ?thesis by simp
  next
    case None
    from ingest_one_new[OF None, of verifier bt] assms PDict have "\<not> storable d"
      by (auto split: if_splits)
    with ingest_one_new[OF None, of verifier' bt'] PDict show ?thesis by simp
  qed
qed (use assms in auto)

lemma ingest_extends: "\<exists>new. fst (ingest verifier bt rows batch results) = rows @ new"
proof (induction batch arbitrary: rows results)
  case Nil
  then show ?case by simp
next
  case (Cons b bs)
  show ?case
  proof (cases "ingest_one verifier bt rows b")
    case (Inl e)
    then show ?thesis by simp
  next
    case (Inr p)
    obtain rows' row where p: "p = (rows', row)" by (cases p)
    from ingest_one_Inr[OF Inr[unfolded p]] obtain new1 where n1: "rows' = rows @ new1" by auto
    from Cons.IH[of rows' "results @ [row]"] obtain new2 where
      "fst (ingest verifier bt rows' bs (results @ [row])) = rows' @ new2" by blast
    then show ?thesis using Inr p n1 by simp
  qed
qed

lemma ingest_all_known:
  "\<forall>b \<in> set batch. known rows b \<Longrightarrow> fst (ingest verifier bt rows batch results) = rows"
proof (induction batch arbitrary: results)
  case Nil
  then show ?case by simp
next
  case (Cons b bs)
  from Cons.prems have "known rows b" by simp
  from ingest_one_known[OF this, of verifier bt] obtain row where
    "ingest_one verifier bt rows b = Inr (rows, row)" by blast
  then show ?case using Cons by simp
qed

lemma ingest_twice:
  "fst (ingest verifier' bt' (fst (ingest verifier bt rows batch results)) batch results') =
   fst (ingest verifier bt rows batch results)"
proof (induction batch arbitrary: rows results results')
  case Nil
  then show ?case by simp
next
  case (Cons b bs)
  show ?case
  proof (cases "ingest_one verifier bt rows b")
    case (Inl e)
    from ingest_one_Inl[OF Inl, of verifier' bt'] obtain e' where
      "ingest_one verifier' bt' rows b = Inl e'" by blast
    with Inl show ?thesis by simp
  next
    case (Inr p)
    obtain rows' row where p: "p = (rows', row)" by (cases p)
    let ?F = "fst (ingest verifier bt rows' bs (results @ [row]))"
    have F: "fst (ingest verifier bt rows (b # bs) results) = ?F"
      using Inr p by simp
    from ingest_one_Inr[OF Inr[unfolded p]] have k: "known rows' b" by simp
    from ingest_extends[of verifier bt rows' bs "results @ [row]"] obtain new where
      "?F = rows' @ new" by blast
    with k have "known ?F b" by (simp add: known_append)
    from ingest_one_known[OF this, of verifier' bt'] obtain row' where
      r': "ingest_one verifier' bt' ?F b = Inr (?F, row')" by blast
    have "fst (ingest verifier' bt' ?F (b # bs) results') =
          fst (ingest verifier' bt' ?F bs (results' @ [row']))"
      using r' by simp
    also have "\<dots> = ?F" by (rule Cons.IH)
    finally show ?thesis by (simp only: F)
  qed
qed


text \<open>
  C5. Ingesting a batch a second time, whatever the verifier answers then, leaves the
  table exactly as the first ingest left it, so the stored count is the same. The table
  only grows at its end: no row is updated or removed. A listing whose identifier is
  already stored adds nothing, also when it carries new data.
\<close>

theorem ingest_idempotent:
  "fst (ingest verifier' bt' (fst (ingest verifier bt rows batch results)) batch results') =
     fst (ingest verifier bt rows batch results) \<and>
   length (fst (ingest verifier' bt' (fst (ingest verifier bt rows batch results)) batch results')) =
     length (fst (ingest verifier bt rows batch results)) \<and>
   (\<exists>new. fst (ingest verifier bt rows batch results) = rows @ new) \<and>
   ((\<forall>b \<in> set batch. known rows b) \<longrightarrow> fst (ingest verifier bt rows batch results) = rows)"
  using ingest_twice[of verifier' bt' verifier bt rows batch results results']
        ingest_extends[of verifier bt rows batch results]
        ingest_all_known[of batch rows verifier bt results]
  by simp

theorem ingest_idempotent_witness:
  "length (fst (ingest None (PStr ''restaurants'') [] sample_batch [])) = 2 \<and>
   length (fst (ingest None (PStr ''restaurants'')
                  (fst (ingest None (PStr ''restaurants'') [] sample_batch []))
                  sample_batch [])) = 2 \<and>
   known (fst (ingest None (PStr ''restaurants'') [] sample_batch [])) changed_listing \<and>
   fst (ingest None (PStr ''restaurants'')
          (fst (ingest None (PStr ''restaurants'') [] sample_batch [])) [changed_listing] []) =
     fst (ingest None (PStr ''restaurants'') [] sample_batch [])"
proof -
  let ?once = "fst (ingest None (PStr ''restaurants'') [] sample_batch [])"
  have a: "length ?once = 2"
    by (simp add: find_by_yelp_id_def dict_get_def new_business_def and_then_def commit_def)
  have k: "known ?once changed_listing"
    by (simp add: known_def find_by_yelp_id_def dict_get_def new_business_def and_then_def
                  commit_def)
  note t = ingest_idempotent
             [of None "PStr ''restaurants''" None "PStr ''restaurants''" "[]" sample_batch "[]" "[]"]
  note u = ingest_idempotent
             [of None "PStr ''restaurants''" None "PStr ''restaurants''" ?once
                 "[changed_listing]" "[]" "[]"]
  from t a have b: "length (fst (ingest None (PStr ''restaurants'') ?once sample_batch [])) = 2"
    by simp
  from u k have c: "fst (ingest None (PStr ''restaurants'') ?once [changed_listing] []) = ?once"
    by simp
  from a b k c show ?thesis by blast
qed

end
